theory Spec2Isabelle
  imports Main
begin

section \<open>Strings and POSIX paths\<close>

text \<open>
  The backup script \<^verbatim>\<open>backup_to_s3.py\<close> manipulates paths as Python strings on a
  POSIX host. A path is a \<^typ>\<open>string\<close>; the functions below are the string and
  \<^verbatim>\<open>posixpath\<close>/\<^verbatim>\<open>pathlib\<close> operations the script calls, restricted to what
  they do on POSIX.
\<close>

definition backslash :: char where
  "backslash = CHR 0x5C"

text \<open>\<^verbatim>\<open>s.startswith(p)\<close>\<close>

definition startswith :: "string \<Rightarrow> string \<Rightarrow> bool" where
  "startswith s p = (take (length p) s = p)"

text \<open>\<^verbatim>\<open>s.endswith(p)\<close>\<close>

definition endswith :: "string \<Rightarrow> string \<Rightarrow> bool" where
  "endswith s p = (length p \<le> length s \<and> drop (length s - length p) s = p)"

text \<open>\<^verbatim>\<open>s.split(sep)\<close> for a one-character separator: never the empty list.\<close>

fun split_sep :: "char \<Rightarrow> string \<Rightarrow> string list" where
  "split_sep sep [] = [[]]"
| "split_sep sep (c # cs) =
     (if c = sep then [] # split_sep sep cs
      else (case split_sep sep cs of
              [] \<Rightarrow> [[c]]
            | x # xs \<Rightarrow> (c # x) # xs))"

text \<open>\<^verbatim>\<open>sep.join(xs)\<close>\<close>

fun join_sep :: "string \<Rightarrow> string list \<Rightarrow> string" where
  "join_sep sep [] = []"
| "join_sep sep [x] = x"
| "join_sep sep (x # y # ys) = x @ sep @ join_sep sep (y # ys)"

text \<open>\<^verbatim>\<open>s.replace('\\', '/')\<close>\<close>

definition replace_backslash :: "string \<Rightarrow> string" where
  "replace_backslash s = map (\<lambda>c. if c = backslash then CHR ''/'' else c) s"

text \<open>
  \<^verbatim>\<open>s.lower()\<close> and \<^verbatim>\<open>s.upper()\<close>, on the ASCII letters (the extensions of
  the allow-list are ASCII; other characters are left as they are).
\<close>

definition lower_char :: "char \<Rightarrow> char" where
  "lower_char c =
     (let n = (of_char c :: nat) in if 65 \<le> n \<and> n \<le> 90 then char_of (n + 32) else c)"

definition upper_char :: "char \<Rightarrow> char" where
  "upper_char c =
     (let n = (of_char c :: nat) in if 97 \<le> n \<and> n \<le> 122 then char_of (n - 32) else c)"

definition lower :: "string \<Rightarrow> string" where
  "lower s = map lower_char s"

definition upper :: "string \<Rightarrow> string" where
  "upper s = map upper_char s"

subsection \<open>posixpath\<close>

text \<open>\<^verbatim>\<open>posixpath.isabs\<close>\<close>

definition isabs :: "string \<Rightarrow> bool" where
  "isabs s = startswith s ''/''"

text \<open>\<^verbatim>\<open>posixpath.join(a, *p)\<close>: a component that starts with the separator replaces
  what was joined so far.\<close>

definition join_step :: "string \<Rightarrow> string \<Rightarrow> string" where
  "join_step path b =
     (if startswith b ''/'' then b
      else if path = [] \<or> endswith path ''/'' then path @ b
      else path @ ''/'' @ b)"

definition posix_join :: "string \<Rightarrow> string list \<Rightarrow> string" where
  "posix_join a p = foldl join_step a p"

text \<open>
  \<^verbatim>\<open>posixpath.normpath\<close>: one step of its loop over the components, then the
  function. \<open>initial_slashes\<close> is 0, 1 or 2 (exactly two leading slashes are kept).
\<close>

definition normpath_step :: "nat \<Rightarrow> string list \<Rightarrow> string \<Rightarrow> string list" where
  "normpath_step initial_slashes new_comps c =
     (if c = [] \<or> c = ''.'' then new_comps
      else if c \<noteq> ''..'' \<or> (initial_slashes = 0 \<and> new_comps = [])
                \<or> (new_comps \<noteq> [] \<and> last new_comps = ''..'')
        then new_comps @ [c]
      else if new_comps \<noteq> [] then butlast new_comps
      else new_comps)"

definition normpath :: "string \<Rightarrow> string" where
  "normpath path =
     (if path = [] then ''.''
      else
        let initial_slashes =
              (if startswith path ''/''
               then (if startswith path ''//'' \<and> \<not> startswith path ''///'' then 2 else 1)
               else (0::nat));
            comps = foldl (normpath_step initial_slashes) [] (split_sep CHR ''/'' path);
            path' = replicate initial_slashes CHR ''/'' @ join_sep ''/'' comps
        in if path' = [] then ''.'' else path')"

text \<open>\<^verbatim>\<open>posixpath.abspath\<close>, with the process's working directory as a parameter.\<close>

definition abspath :: "string \<Rightarrow> string \<Rightarrow> string" where
  "abspath cwd path = normpath (if isabs path then path else posix_join cwd [path])"

text \<open>\<^verbatim>\<open>genericpath.commonprefix\<close> of two component lists.\<close>

fun commonprefix :: "'a list \<Rightarrow> 'a list \<Rightarrow> 'a list" where
  "commonprefix (x # xs) (y # ys) = (if x = y then x # commonprefix xs ys else [])"
| "commonprefix _ _ = []"

text \<open>The non-empty components of an absolute, normalised path.\<close>

definition abs_parts :: "string \<Rightarrow> string \<Rightarrow> string list" where
  "abs_parts cwd p = filter (\<lambda>x. x \<noteq> []) (split_sep CHR ''/'' (abspath cwd p))"

datatype py_error = ValueError | OSError | ClientError | BotoCoreError | DatabaseError

text \<open>
  \<^verbatim>\<open>posixpath.relpath(path, start)\<close>. It raises \<^verbatim>\<open>ValueError\<close> for the empty
  path; otherwise it climbs out of \<open>start\<close> with \<^verbatim>\<open>..\<close> and descends into
  \<open>path\<close>.
\<close>

definition relpath :: "string \<Rightarrow> string \<Rightarrow> string \<Rightarrow> py_error + string" where
  "relpath cwd path start =
     (if path = [] then Inl ValueError
      else
        let start_list = abs_parts cwd start;
            path_list = abs_parts cwd path;
            i = length (commonprefix start_list path_list);
            rel_list = replicate (length start_list - i) ''..'' @ drop i path_list
        in (case rel_list of
              [] \<Rightarrow> Inr ''.''
            | a # p \<Rightarrow> Inr (posix_join a p)))"

subsection \<open>pathlib\<close>

text \<open>
  The parts of a \<^verbatim>\<open>PurePosixPath\<close> below its root: the components that are neither
  empty nor \<^verbatim>\<open>.\<close>. \<^verbatim>\<open>Path(s).name\<close> is the last of them, or the empty string.
\<close>

definition path_tail :: "string \<Rightarrow> string list" where
  "path_tail s = filter (\<lambda>x. x \<noteq> [] \<and> x \<noteq> ''.'') (split_sep CHR ''/'' s)"

definition path_name :: "string \<Rightarrow> string" where
  "path_name s = (case path_tail s of [] \<Rightarrow> [] | x # xs \<Rightarrow> last (x # xs))"

text \<open>\<^verbatim>\<open>str.rfind('.')\<close> as an option, and \<^verbatim>\<open>Path(s).suffix\<close>.\<close>

fun rfind_dot :: "string \<Rightarrow> nat option" where
  "rfind_dot [] = None"
| "rfind_dot (c # cs) =
     (case rfind_dot cs of
        Some i \<Rightarrow> Some (Suc i)
      | None \<Rightarrow> if c = CHR ''.'' then Some 0 else None)"

definition path_suffix :: "string \<Rightarrow> string" where
  "path_suffix s =
     (let name = path_name s in
      case rfind_dot name of
        None \<Rightarrow> []
      | Some i \<Rightarrow> if 0 < i \<and> i < length name - 1 then drop i name else [])"

section \<open>The local filesystem\<close>

text \<open>
  The script only reads the filesystem. What it observes is a record of
  functions: the working directory, \<^verbatim>\<open>Path.resolve\<close>, existence tests, the
  recursive listing of a directory, and \<^verbatim>\<open>os.path.getsize\<close> (\<open>None\<close> where it
  raises \<^verbatim>\<open>OSError\<close>) and the bytes of a file.
\<close>

type_synonym bytes = "nat list"

record filesystem =
  cwd :: string
  resolve :: "string \<Rightarrow> string"
  path_exists :: "string \<Rightarrow> bool"
  is_file :: "string \<Rightarrow> bool"
  rglob :: "string \<Rightarrow> string list"
  getsize :: "string \<Rightarrow> nat option"
  file_bytes :: "string \<Rightarrow> bytes"

section \<open>Remote key derivation\<close>

text \<open>
  \<^verbatim>\<open>get_s3_key(filepath, source_type, source_path)\<close>. The only call that can
  raise, \<^verbatim>\<open>os.path.relpath\<close>, is inside \<^verbatim>\<open>try\<close>/\<^verbatim>\<open>except ValueError\<close>, so the
  function always returns a key.
\<close>

definition get_s3_key :: "filesystem \<Rightarrow> string \<Rightarrow> string \<Rightarrow> string \<Rightarrow> string" where
  "get_s3_key fs filepath source_type source_path =
     (let filepath_str = filepath;
          source_path_resolved = resolve fs source_path;
          filepath_resolved = resolve fs filepath_str;
          relative_path =
            (case relpath (cwd fs) filepath_resolved source_path_resolved of
               Inl e \<Rightarrow> path_name filepath_str
             | Inr r \<Rightarrow> r);
          relative_path =
            (if startswith relative_path ''..'' then path_name filepath_str
             else relative_path);
          normalized_path = replace_backslash relative_path
      in source_type @ ''/'' @ normalized_path)"

section \<open>Candidate enumeration\<close>

text \<open>
  \<^verbatim>\<open>IMAGE_EXTENSIONS\<close> (the lower-case extensions and, after the
  \<^verbatim>\<open>update\<close>, their upper-case forms) and \<^verbatim>\<open>EXCLUDE_DIRS\<close>. Both are Python
  sets used for membership only.
\<close>

definition IMAGE_EXTENSIONS :: "string list" where
  "IMAGE_EXTENSIONS =
     (let exts = [''.jpg'', ''.jpeg'', ''.raw'', ''.cr2'', ''.nef'', ''.arw'', ''.dng'',
                  ''.tif'', ''.tiff'', ''.png'', ''.raf'']
      in exts @ map upper exts)"

definition EXCLUDE_DIRS :: "string list" where
  "EXCLUDE_DIRS = [''thumbs'', ''encoded-video'', ''profiles'', ''backups'']"

text \<open>\<^verbatim>\<open>Path(s).parts\<close>: the root, if any, then the components.\<close>

definition path_parts :: "string \<Rightarrow> string list" where
  "path_parts s =
     (if startswith s ''//'' \<and> \<not> startswith s ''///'' then [''//'']
      else if startswith s ''/'' then [''/'']
      else []) @ path_tail s"

text \<open>
  \<^verbatim>\<open>find_image_files(base_dir)\<close>: the generator's items, in the order of
  \<^verbatim>\<open>rglob('*')\<close>.
\<close>

definition find_image_files :: "filesystem \<Rightarrow> string \<Rightarrow> string list" where
  "find_image_files fs base_dir =
     (if \<not> path_exists fs base_dir then []
      else filter
        (\<lambda>filepath.
           is_file fs filepath
           \<and> lower (path_suffix filepath) \<in> set IMAGE_EXTENSIONS
           \<and> \<not> (\<exists>excluded \<in> set EXCLUDE_DIRS. excluded \<in> set (path_parts filepath)))
        (rglob fs base_dir))"

section \<open>The ledger\<close>

text \<open>
  A row of the live table \<^verbatim>\<open>s3_backups\<close> and a row of the audit table
  \<^verbatim>\<open>s3_backups_deleted\<close>, with the columns the script names. Nullable columns are
  options; timestamps are numbers.
\<close>

record backup_row =
  c_file_path :: string
  c_s3_key :: string
  c_source_type :: string
  c_file_size :: "nat option"
  c_md5_checksum :: "string option"
  c_status :: string
  c_uploaded_at :: "nat option"

record deleted_row =
  d_file_path :: string
  d_s3_key :: string
  d_s3_full_path :: string
  d_source_type :: string
  d_file_size :: "nat option"
  d_uploaded_at :: "nat option"
  d_md5_checksum :: "string option"
  d_original_status :: string
  d_deleted_at :: nat

record tables =
  s3_backups :: "backup_row list"
  s3_backups_deleted :: "deleted_row list"

text \<open>
  The psycopg2 connection, not in autocommit mode: statements read and write the
  \<open>working\<close> tables of the open transaction, \<^verbatim>\<open>conn.commit()\<close> makes them the
  \<open>committed\<close> ones, \<^verbatim>\<open>conn.rollback()\<close> discards them.
\<close>

record connection =
  committed :: tables
  working :: tables

definition commit :: "connection \<Rightarrow> connection" where
  "commit c = c\<lparr>committed := working c\<rparr>"

definition rollback :: "connection \<Rightarrow> connection" where
  "rollback c = c\<lparr>working := committed c\<rparr>"

definition execute :: "(tables \<Rightarrow> tables) \<Rightarrow> connection \<Rightarrow> connection" where
  "execute stmt c = c\<lparr>working := stmt (working c)\<rparr>"

subsection \<open>The SQL statements\<close>

text \<open>\<^verbatim>\<open>SELECT ... FROM s3_backups WHERE file_path = %s\<close>, then \<^verbatim>\<open>fetchone()\<close>.\<close>

definition select_by_path :: "string \<Rightarrow> tables \<Rightarrow> backup_row option" where
  "select_by_path p t = find (\<lambda>r. c_file_path r = p) (s3_backups t)"

text \<open>
  Modelled from the spec: the \<^verbatim>\<open>CREATE TABLE\<close> statement of \<^verbatim>\<open>s3_backups\<close> is
  not part of the sources. Section 3 of the specification says that size and checksum
  ``may be null if upload failed before these were known'' and that \<^verbatim>\<open>uploaded_at\<close>
  is the time of the last successful write, so a column that an \<^verbatim>\<open>INSERT\<close> leaves
  out has no default and is \<^verbatim>\<open>NULL\<close>.
\<close>

definition column_default :: "'a option" where
  "column_default = None"

text \<open>
  The statement of \<^verbatim>\<open>insert_into_database\<close>: \<^verbatim>\<open>INSERT ... ON CONFLICT (file_path)
  DO UPDATE SET\<close> key, size, checksum, status and timestamp (not the source type).
\<close>

definition sql_upsert :: "backup_row \<Rightarrow> tables \<Rightarrow> tables" where
  "sql_upsert new t =
     (if \<exists>r \<in> set (s3_backups t). c_file_path r = c_file_path new
      then t\<lparr>s3_backups :=
             map (\<lambda>r. if c_file_path r = c_file_path new
                       then r\<lparr>c_s3_key := c_s3_key new,
                              c_file_size := c_file_size new,
                              c_md5_checksum := c_md5_checksum new,
                              c_status := c_status new,
                              c_uploaded_at := c_uploaded_at new\<rparr>
                       else r)
                 (s3_backups t)\<rparr>
      else t\<lparr>s3_backups := s3_backups t @ [new]\<rparr>)"

text \<open>
  The statement of the error path of \<^verbatim>\<open>scan_and_upload\<close>: \<^verbatim>\<open>INSERT INTO s3_backups
  (file_path, s3_key, source_type, status) VALUES (%s, %s, %s, 'error') ON CONFLICT
  (file_path) DO UPDATE SET status = 'error'\<close>.
\<close>

definition sql_mark_error :: "string \<Rightarrow> string \<Rightarrow> string \<Rightarrow> tables \<Rightarrow> tables" where
  "sql_mark_error filepath s3_key source_type t =
     (if \<exists>r \<in> set (s3_backups t). c_file_path r = filepath
      then t\<lparr>s3_backups :=
             map (\<lambda>r. if c_file_path r = filepath then r\<lparr>c_status := ''error''\<rparr> else r)
                 (s3_backups t)\<rparr>
      else t\<lparr>s3_backups := s3_backups t @
             [\<lparr>c_file_path = filepath, c_s3_key = s3_key, c_source_type = source_type,
               c_file_size = column_default, c_md5_checksum = column_default,
               c_status = ''error'', c_uploaded_at = column_default\<rparr>]\<rparr>)"

text \<open>
  PostgreSQL's \<^verbatim>\<open>LIKE\<close> with the default escape character: \<^verbatim>\<open>%\<close> matches any
  sequence, \<^verbatim>\<open>_\<close> any one character, a backslash makes the next pattern character
  literal. (A pattern that ends in a lone backslash is an error in PostgreSQL; the
  pattern of the script ends in \<^verbatim>\<open>%\<close>, so that case does not arise and is read as
  no match.)
\<close>

fun sql_like :: "string \<Rightarrow> string \<Rightarrow> bool" where
  "sql_like [] t = (t = [])"
| "sql_like (p # ps) t =
     (if p = backslash then
        (case ps of
           [] \<Rightarrow> False
         | q # qs \<Rightarrow> (case t of [] \<Rightarrow> False | c # cs \<Rightarrow> q = c \<and> sql_like qs cs))
      else if p = CHR ''%'' then
        (sql_like ps t \<or> (case t of [] \<Rightarrow> False | c # cs \<Rightarrow> sql_like (p # ps) cs))
      else if p = CHR ''_'' then
        (case t of [] \<Rightarrow> False | c # cs \<Rightarrow> sql_like ps cs)
      else
        (case t of [] \<Rightarrow> False | c # cs \<Rightarrow> p = c \<and> sql_like ps cs))"

text \<open>
  The scan of \<^verbatim>\<open>sync_deletions\<close>: \<^verbatim>\<open>SELECT file_path, s3_key FROM s3_backups WHERE
  source_type = %s AND status = 'uploaded' AND file_path LIKE %s\<close>, then
  \<^verbatim>\<open>fetchall()\<close>.
\<close>

definition sql_list_uploaded :: "string \<Rightarrow> string \<Rightarrow> tables \<Rightarrow> (string \<times> string) list" where
  "sql_list_uploaded source_type pattern t =
     map (\<lambda>r. (c_file_path r, c_s3_key r))
       (filter (\<lambda>r. c_source_type r = source_type \<and> c_status r = ''uploaded''
                     \<and> sql_like pattern (c_file_path r))
          (s3_backups t))"

text \<open>\<^verbatim>\<open>INSERT INTO s3_backups_deleted ...\<close> and \<^verbatim>\<open>DELETE FROM s3_backups WHERE
  file_path = %s\<close>.\<close>

definition sql_insert_deleted :: "deleted_row \<Rightarrow> tables \<Rightarrow> tables" where
  "sql_insert_deleted row t = t\<lparr>s3_backups_deleted := s3_backups_deleted t @ [row]\<rparr>"

definition sql_delete_by_path :: "string \<Rightarrow> tables \<Rightarrow> tables" where
  "sql_delete_by_path p t = t\<lparr>s3_backups := filter (\<lambda>r. c_file_path r \<noteq> p) (s3_backups t)\<rparr>"

section \<open>The object store\<close>

text \<open>
  The bucket: the objects by key, and the calls made so far (oldest first). An object
  carries the four tags the script attaches.
\<close>

record s3_tags =
  tag_source_type :: string
  tag_upload_date :: nat
  tag_file_size :: nat
  tag_original_path :: string

record s3_object =
  obj_body :: bytes
  obj_tags :: s3_tags

datatype s3_call = UploadFileobj string string | DeleteObject string

record bucket_state =
  objects :: "string \<Rightarrow> s3_object option"
  calls :: "s3_call list"

definition upload_fileobj :: "string \<Rightarrow> string \<Rightarrow> s3_object \<Rightarrow> bucket_state \<Rightarrow> bucket_state" where
  "upload_fileobj filepath key obj b =
     b\<lparr>objects := (objects b)(key \<mapsto> obj), calls := calls b @ [UploadFileobj key filepath]\<rparr>"

definition delete_object :: "string \<Rightarrow> bucket_state \<Rightarrow> bucket_state" where
  "delete_object key b =
     b\<lparr>objects := (objects b)(key := None), calls := calls b @ [DeleteObject key]\<rparr>"

section \<open>The run-time environment and the state of a run\<close>

datatype log_event =
    LogMd5Failed string
  | LogWouldUpload string string nat "string option"
  | LogUploaded string string
  | LogUploadFailed string
  | LogUploadUnexpected string
  | LogInsertFailed
  | LogSourceMissing string
  | LogScanning string string
  | LogProcessingError string
  | LogCompleted string nat nat nat
  | LogNotAccessible string
  | LogSyncing string string
  | LogWouldDelete string string
  | LogDeleted string string
  | LogRecordNotFound string
  | LogDeleteFailed string
  | LogDeleteUnexpected string
  | LogDeletionComplete string nat nat

datatype db_stmt =
    SelectRecord | Upsert | CommitUpsert | MarkError | CommitMarkError
  | ListUploaded | FetchRecord | InsertDeleted | DeleteRecord | CommitDelete

text \<open>
  What a run meets outside the program: the filesystem, the hash function, the
  clocks, and which calls raise. Each of these is asked about the file being processed
  (for \<open>ListUploaded\<close>, about the source path), so every call of a run has its own
  answer. \<open>fingerprint_read_fails\<close> is the read inside \<^verbatim>\<open>calculate_md5\<close>,
  \<open>upload_open_fails\<close> the later \<^verbatim>\<open>open\<close> for the upload; \<open>s3_upload_error\<close> and
  \<open>s3_delete_error\<close> give the exception of the S3 call, if it raises;
  \<open>db_fails\<close> says that a statement or commit raises.
\<close>

record runtime =
  filesys :: filesystem
  md5_hexdigest :: "bytes \<Rightarrow> string"
  datetime_now :: "string \<Rightarrow> nat"
  sql_now :: "string \<Rightarrow> nat"
  fingerprint_read_fails :: "string \<Rightarrow> bool"
  upload_open_fails :: "string \<Rightarrow> bool"
  s3_upload_error :: "string \<Rightarrow> py_error option"
  s3_delete_error :: "string \<Rightarrow> py_error option"
  db_fails :: "db_stmt \<Rightarrow> string \<Rightarrow> bool"

record world =
  db :: connection
  s3 :: bucket_state
  logged :: "log_event list"

definition logger :: "log_event \<Rightarrow> world \<Rightarrow> world" where
  "logger e w = w\<lparr>logged := logged w @ [e]\<rparr>"

record counts =
  uploaded_count :: nat
  error_count :: nat
  skipped_count :: nat
  deleted_count :: nat

definition no_counts :: counts where
  "no_counts = \<lparr>uploaded_count = 0, error_count = 0, skipped_count = 0, deleted_count = 0\<rparr>"

section \<open>The upload pass\<close>

text \<open>
  \<^verbatim>\<open>calculate_md5(filepath)\<close>: the digest of the file's bytes, or \<^verbatim>\<open>None\<close> (after
  a warning) when opening or reading raises.
\<close>

definition calculate_md5 :: "runtime \<Rightarrow> string \<Rightarrow> world \<Rightarrow> string option \<times> world" where
  "calculate_md5 rt filepath w =
     (if fingerprint_read_fails rt filepath then (None, logger (LogMd5Failed filepath) w)
      else (Some (md5_hexdigest rt (file_bytes (filesys rt) filepath)), w))"

text \<open>\<^verbatim>\<open>file_in_database(cursor, filepath)\<close>: the row (of which the caller reads the
  status), \<^verbatim>\<open>None\<close>, or the exception of the query.\<close>

definition file_in_database :: "runtime \<Rightarrow> string \<Rightarrow> world \<Rightarrow> py_error + backup_row option" where
  "file_in_database rt filepath w =
     (if db_fails rt SelectRecord filepath then Inl DatabaseError
      else Inr (select_by_path filepath (working (db w))))"

text \<open>
  \<^verbatim>\<open>upload_file_to_s3(s3_client, bucket, filepath, s3_key, source_type, dry_run)\<close>:
  the size and checksum, or the exception it re-raises after logging it.
\<close>

definition upload_file_to_s3 ::
  "runtime \<Rightarrow> string \<Rightarrow> string \<Rightarrow> string \<Rightarrow> string \<Rightarrow> bool \<Rightarrow> world
     \<Rightarrow> (py_error + nat \<times> string option) \<times> world" where
  "upload_file_to_s3 rt bucket filepath s3_key source_type dry_run w =
     (case getsize (filesys rt) filepath of
        None \<Rightarrow> (Inl OSError, logger (LogUploadUnexpected filepath) w)
      | Some file_size \<Rightarrow>
          let (md5, w1) = calculate_md5 rt filepath w;
              tags = \<lparr>tag_source_type = source_type,
                      tag_upload_date = datetime_now rt filepath,
                      tag_file_size = file_size,
                      tag_original_path = filepath\<rparr>
          in if dry_run
             then (Inr (file_size, md5), logger (LogWouldUpload filepath s3_key file_size md5) w1)
             else if upload_open_fails rt filepath
             then (Inl OSError, logger (LogUploadUnexpected filepath) w1)
             else (case s3_upload_error rt filepath of
                     Some e \<Rightarrow>
                       (Inl e, logger (if e = ClientError then LogUploadFailed filepath
                                       else LogUploadUnexpected filepath) w1)
                   | None \<Rightarrow>
                       (Inr (file_size, md5),
                        logger (LogUploaded filepath s3_key)
                          (w1\<lparr>s3 := upload_fileobj filepath s3_key
                                  \<lparr>obj_body = file_bytes (filesys rt) filepath, obj_tags = tags\<rparr>
                                  (s3 w1)\<rparr>))))"

text \<open>
  \<^verbatim>\<open>insert_into_database(cursor, conn, filepath, s3_key, source_type, file_size, md5,
  status)\<close>: \<^verbatim>\<open>None\<close> when it returns, the exception when it rolls back and
  re-raises.
\<close>

definition insert_into_database ::
  "runtime \<Rightarrow> string \<Rightarrow> string \<Rightarrow> string \<Rightarrow> nat \<Rightarrow> string option \<Rightarrow> string \<Rightarrow> world
     \<Rightarrow> py_error option \<times> world" where
  "insert_into_database rt filepath s3_key source_type file_size md5 status w =
     (if db_fails rt Upsert filepath
      then (Some DatabaseError, (logger LogInsertFailed w)\<lparr>db := rollback (db w)\<rparr>)
      else
        let new = \<lparr>c_file_path = filepath, c_s3_key = s3_key, c_source_type = source_type,
                   c_file_size = Some file_size, c_md5_checksum = md5, c_status = status,
                   c_uploaded_at = Some (sql_now rt filepath)\<rparr>;
            w1 = w\<lparr>db := execute (sql_upsert new) (db w)\<rparr>
        in if db_fails rt CommitUpsert filepath
           then (Some DatabaseError, (logger LogInsertFailed w1)\<lparr>db := rollback (db w1)\<rparr>)
           else (None, w1\<lparr>db := commit (db w1)\<rparr>))"

text \<open>
  The \<^verbatim>\<open>except Exception\<close> block of the loop of \<^verbatim>\<open>scan_and_upload\<close>: count the
  error and, unless this is a dry run, try to mark the file as failed; if that raises,
  roll back and go on.
\<close>

definition mark_as_error ::
  "runtime \<Rightarrow> string \<Rightarrow> string \<Rightarrow> bool \<Rightarrow> string \<Rightarrow> world \<times> counts \<Rightarrow> world \<times> counts" where
  "mark_as_error rt source_type source_path_resolved dry_run filepath s =
     (let (w, c) = s;
          w1 = logger (LogProcessingError filepath) w;
          c1 = c\<lparr>error_count := error_count c + 1\<rparr>
      in if dry_run then (w1, c1)
         else
           let s3_key = get_s3_key (filesys rt) filepath source_type source_path_resolved
           in if db_fails rt MarkError filepath
              then (w1\<lparr>db := rollback (db w1)\<rparr>, c1)
              else
                let w2 = w1\<lparr>db := execute (sql_mark_error filepath s3_key source_type) (db w1)\<rparr>
                in if db_fails rt CommitMarkError filepath
                   then (w2\<lparr>db := rollback (db w2)\<rparr>, c1)
                   else (w2\<lparr>db := commit (db w2)\<rparr>, c1))"

text \<open>The body of the loop of \<^verbatim>\<open>scan_and_upload\<close>, for one candidate.\<close>

definition process_candidate ::
  "runtime \<Rightarrow> string \<Rightarrow> string \<Rightarrow> string \<Rightarrow> bool \<Rightarrow> string \<Rightarrow> world \<times> counts
     \<Rightarrow> world \<times> counts" where
  "process_candidate rt bucket source_type source_path_resolved dry_run filepath s =
     (let (w, c) = s in
      case file_in_database rt filepath w of
        Inl e \<Rightarrow> mark_as_error rt source_type source_path_resolved dry_run filepath (w, c)
      | Inr db_record \<Rightarrow>
          if (case db_record of None \<Rightarrow> False | Some r \<Rightarrow> c_status r = ''uploaded'')
          then (w, c\<lparr>skipped_count := skipped_count c + 1\<rparr>)
          else
            let s3_key = get_s3_key (filesys rt) filepath source_type source_path_resolved
            in (case upload_file_to_s3 rt bucket filepath s3_key source_type dry_run w of
                  (Inl e, w1) \<Rightarrow>
                    mark_as_error rt source_type source_path_resolved dry_run filepath (w1, c)
                | (Inr (file_size, md5), w1) \<Rightarrow>
                    if \<not> dry_run
                    then (case insert_into_database rt filepath s3_key source_type
                                 file_size md5 ''uploaded'' w1 of
                            (Some e, w2) \<Rightarrow>
                              mark_as_error rt source_type source_path_resolved dry_run
                                filepath (w2, c)
                          | (None, w2) \<Rightarrow> (w2, c\<lparr>uploaded_count := uploaded_count c + 1\<rparr>))
                    else (w1, c\<lparr>uploaded_count := uploaded_count c + 1\<rparr>)))"

text \<open>The loop over the candidates, and \<^verbatim>\<open>scan_and_upload\<close> itself.\<close>

fun upload_loop ::
  "runtime \<Rightarrow> string \<Rightarrow> string \<Rightarrow> string \<Rightarrow> bool \<Rightarrow> string list \<Rightarrow> world \<times> counts
     \<Rightarrow> world \<times> counts" where
  "upload_loop rt bucket source_type source_path_resolved dry_run [] s = s"
| "upload_loop rt bucket source_type source_path_resolved dry_run (filepath # rest) s =
     upload_loop rt bucket source_type source_path_resolved dry_run rest
       (process_candidate rt bucket source_type source_path_resolved dry_run filepath s)"

definition scan_and_upload ::
  "runtime \<Rightarrow> string \<Rightarrow> string \<Rightarrow> string \<Rightarrow> bool \<Rightarrow> world \<Rightarrow> world" where
  "scan_and_upload rt bucket source_type source_path dry_run w =
     (if \<not> path_exists (filesys rt) source_path then logger (LogSourceMissing source_path) w
      else
        let source_path_resolved = resolve (filesys rt) source_path;
            w1 = logger (LogScanning source_type source_path) w;
            (w2, c) = upload_loop rt bucket source_type source_path_resolved dry_run
                        (find_image_files (filesys rt) source_path) (w1, no_counts)
        in logger (LogCompleted source_type (uploaded_count c) (skipped_count c)
                     (error_count c)) w2)"

section \<open>The deletion pass\<close>

text \<open>
  The body of the loop of \<^verbatim>\<open>sync_deletions\<close>, for one row \<open>(db_file_path, s3_key)\<close>
  of the scan. A \<^verbatim>\<open>ClientError\<close> and any other exception are handled alike but for
  the message: count the error and roll back.
\<close>

definition delete_failed :: "py_error \<Rightarrow> string \<Rightarrow> world \<times> counts \<Rightarrow> world \<times> counts" where
  "delete_failed e s3_key s =
     (let (w, c) = s;
          w1 = logger (if e = ClientError then LogDeleteFailed s3_key
                       else LogDeleteUnexpected s3_key) w
      in (w1\<lparr>db := rollback (db w1)\<rparr>, c\<lparr>error_count := error_count c + 1\<rparr>))"

definition delete_candidate ::
  "runtime \<Rightarrow> string \<Rightarrow> bool \<Rightarrow> string \<times> string \<Rightarrow> world \<times> counts \<Rightarrow> world \<times> counts" where
  "delete_candidate rt bucket dry_run row s =
     (let (db_file_path, s3_key) = row; (w, c) = s in
      if path_exists (filesys rt) db_file_path then (w, c)
      else if dry_run
      then (logger (LogWouldDelete db_file_path s3_key) w,
            c\<lparr>deleted_count := deleted_count c + 1\<rparr>)
      else if db_fails rt FetchRecord db_file_path
      then delete_failed DatabaseError s3_key (w, c)
      else
        (case select_by_path db_file_path (working (db w)) of
           None \<Rightarrow>
             (let w1 = logger (LogRecordNotFound db_file_path) w
              in (w1\<lparr>db := rollback (db w1)\<rparr>, c))
         | Some record \<Rightarrow>
             let s3_full_path = ''s3://'' @ bucket @ ''/'' @ c_s3_key record
             in if db_fails rt InsertDeleted db_file_path
                then delete_failed DatabaseError s3_key (w, c)
                else
                  let w1 = w\<lparr>db := execute
                             (sql_insert_deleted
                                \<lparr>d_file_path = c_file_path record,
                                  d_s3_key = c_s3_key record,
                                  d_s3_full_path = s3_full_path,
                                  d_source_type = c_source_type record,
                                  d_file_size = c_file_size record,
                                  d_uploaded_at = c_uploaded_at record,
                                  d_md5_checksum = c_md5_checksum record,
                                  d_original_status = c_status record,
                                  d_deleted_at = sql_now rt db_file_path\<rparr>)
                             (db w)\<rparr>
                  in (case s3_delete_error rt db_file_path of
                        Some e \<Rightarrow> delete_failed e s3_key (w1, c)
                      | None \<Rightarrow>
                          let w2 = w1\<lparr>s3 := delete_object s3_key (s3 w1)\<rparr>
                          in if db_fails rt DeleteRecord db_file_path
                             then delete_failed DatabaseError s3_key (w2, c)
                             else
                               let w3 = w2\<lparr>db := execute (sql_delete_by_path db_file_path)
                                                   (db w2)\<rparr>
                               in if db_fails rt CommitDelete db_file_path
                                  then delete_failed DatabaseError s3_key (w3, c)
                                  else (logger (LogDeleted db_file_path s3_full_path)
                                          (w3\<lparr>db := commit (db w3)\<rparr>),
                                        c\<lparr>deleted_count := deleted_count c + 1\<rparr>))))"

fun delete_loop ::
  "runtime \<Rightarrow> string \<Rightarrow> bool \<Rightarrow> (string \<times> string) list \<Rightarrow> world \<times> counts \<Rightarrow> world \<times> counts" where
  "delete_loop rt bucket dry_run [] s = s"
| "delete_loop rt bucket dry_run (row # rest) s =
     delete_loop rt bucket dry_run rest (delete_candidate rt bucket dry_run row s)"

text \<open>
  \<^verbatim>\<open>sync_deletions(s3_client, bucket, cursor, conn, source_type, source_path,
  dry_run)\<close>. The scan query is outside any \<^verbatim>\<open>try\<close>: if it raises, the exception
  leaves the function (second component), with the state as it was then.
\<close>

definition sync_deletions ::
  "runtime \<Rightarrow> string \<Rightarrow> string \<Rightarrow> string \<Rightarrow> bool \<Rightarrow> world \<Rightarrow> world \<times> py_error option" where
  "sync_deletions rt bucket source_type source_path dry_run w =
     (if \<not> path_exists (filesys rt) source_path
      then (logger (LogNotAccessible source_path) w, None)
      else
        let source_path_resolved = resolve (filesys rt) source_path;
            w1 = logger (LogSyncing source_type source_path) w
        in if db_fails rt ListUploaded source_path then (w1, Some DatabaseError)
           else
             let db_files = sql_list_uploaded source_type (source_path_resolved @ ''%'')
                              (working (db w1));
                 (w2, c) = delete_loop rt bucket dry_run db_files (w1, no_counts)
             in (logger (LogDeletionComplete source_type (deleted_count c) (error_count c)) w2,
                 None))"

section \<open>Example environments\<close>

text \<open>
  A small host for the examples below: the source root \<^verbatim>\<open>/data\<close> holds
  \<^verbatim>\<open>a.jpg\<close> and \<^verbatim>\<open>b.jpg\<close>, no path is a symbolic link, and no call fails.
\<close>

definition demo_fs :: filesystem where
  "demo_fs = \<lparr>cwd = ''/'', resolve = (\<lambda>p. p),
     path_exists = (\<lambda>p. p \<in> set [''/data'', ''/data/a.jpg'', ''/data/b.jpg'']),
     is_file = (\<lambda>p. p \<in> set [''/data/a.jpg'', ''/data/b.jpg'']),
     rglob = (\<lambda>p. if p = ''/data'' then [''/data/a.jpg'', ''/data/b.jpg''] else []),
     getsize = (\<lambda>p. Some 3), file_bytes = (\<lambda>p. [1, 2, 3])\<rparr>"

definition demo_rt :: runtime where
  "demo_rt = \<lparr>filesys = demo_fs, md5_hexdigest = (\<lambda>b. ''900150983cd24fb0''),
     datetime_now = (\<lambda>p. 100), sql_now = (\<lambda>p. 101),
     fingerprint_read_fails = (\<lambda>p. False), upload_open_fails = (\<lambda>p. False),
     s3_upload_error = (\<lambda>p. None), s3_delete_error = (\<lambda>p. None),
     db_fails = (\<lambda>st p. False)\<rparr>"

definition uploaded_row :: "string \<Rightarrow> string \<Rightarrow> string \<Rightarrow> backup_row" where
  "uploaded_row p k st = \<lparr>c_file_path = p, c_s3_key = k, c_source_type = st,
      c_file_size = Some 3, c_md5_checksum = Some ''900150983cd24fb0'',
      c_status = ''uploaded'', c_uploaded_at = Some 50\<rparr>"

definition tables_of :: "backup_row list \<Rightarrow> tables" where
  "tables_of rows = \<lparr>s3_backups = rows, s3_backups_deleted = []\<rparr>"

definition world_of :: "backup_row list \<Rightarrow> world" where
  "world_of rows =
     \<lparr>db = \<lparr>committed = tables_of rows, working = tables_of rows\<rparr>,
      s3 = \<lparr>objects = Map.empty, calls = []\<rparr>, logged = []\<rparr>"

definition stale_row :: backup_row where
  "stale_row = \<lparr>c_file_path = ''/data/a.jpg'', c_s3_key = ''old/a.jpg'',
      c_source_type = ''internal'', c_file_size = Some 7,
      c_md5_checksum = Some ''0cc175b9c0f1b6a8'', c_status = ''pending'',
      c_uploaded_at = Some 40\<rparr>"

text \<open>The same host when \<^verbatim>\<open>a.jpg\<close> cannot be read for fingerprinting.\<close>

definition unreadable_rt :: runtime where
  "unreadable_rt = demo_rt\<lparr>fingerprint_read_fails := (\<lambda>p. p = ''/data/a.jpg'')\<rparr>"

text \<open>A ledger that records \<^verbatim>\<open>b.jpg\<close> and a file \<^verbatim>\<open>c.jpg\<close> that is no longer on disk.\<close>

definition ledger_bc :: "backup_row list" where
  "ledger_bc = [uploaded_row ''/data/b.jpg'' ''internal/b.jpg'' ''internal'',
                uploaded_row ''/data/c.jpg'' ''internal/c.jpg'' ''internal'']"


text \<open>
  A host on which the source root \<^verbatim>\<open>/data/img\<close> has a sibling directory
  \<^verbatim>\<open>/data/img2\<close>, and a ledger row for a file that used to be in the sibling.
\<close>

definition sibling_fs :: filesystem where
  "sibling_fs = \<lparr>cwd = ''/'', resolve = (\<lambda>p. p),
     path_exists = (\<lambda>p. p \<in> set [''/data'', ''/data/img'', ''/data/img2'']),
     is_file = (\<lambda>p. False),
     rglob = (\<lambda>p. []),
     getsize = (\<lambda>p. None), file_bytes = (\<lambda>p. [])\<rparr>"

definition sibling_rt :: runtime where
  "sibling_rt = demo_rt\<lparr>filesys := sibling_fs\<rparr>"

definition sibling_row :: backup_row where
  "sibling_row = uploaded_row ''/data/img2/a.jpg'' ''internal/a.jpg'' ''internal''"

text \<open>The same host while every S3 delete call raises \<^verbatim>\<open>ClientError\<close>.\<close>

definition outage_rt :: runtime where
  "outage_rt = demo_rt\<lparr>s3_delete_error := (\<lambda>p. Some ClientError)\<rparr>"



text \<open>The same host while the S3 upload of \<^verbatim>\<open>a.jpg\<close> raises \<^verbatim>\<open>ClientError\<close>.\<close>

definition flaky_rt :: runtime where
  "flaky_rt =
     demo_rt\<lparr>s3_upload_error := (\<lambda>p. if p = ''/data/a.jpg'' then Some ClientError else None)\<rparr>"

section \<open>Notions used in the statements\<close>

text \<open>
  The connection is clean when no statement is pending: the working tables are the
  committed ones. A fresh connection is clean, and both passes leave it clean.
\<close>

definition clean :: "connection \<Rightarrow> bool" where
  "clean c = (working c = committed c)"

text \<open>
  A path is archived when the ledger has a row for it with status \<^verbatim>\<open>uploaded\<close>:
  the test \<^verbatim>\<open>db_record and db_record[2] == 'uploaded'\<close> of the upload pass.
\<close>

definition archived :: "tables \<Rightarrow> string \<Rightarrow> bool" where
  "archived t p =
     (case select_by_path p t of None \<Rightarrow> False | Some r \<Rightarrow> c_status r = ''uploaded'')"

text \<open>The upload of a file throws: one of the calls of \<^verbatim>\<open>upload_file_to_s3\<close> that
  can raise in a real run does.\<close>

definition upload_throws :: "runtime \<Rightarrow> string \<Rightarrow> bool" where
  "upload_throws rt p =
     (getsize (filesys rt) p = None \<or> upload_open_fails rt p \<or> s3_upload_error rt p \<noteq> None)"

text \<open>
  A path is inside the source root when the components of the resolved root are the
  first components of the resolved path; the rest of the components, joined with
  \<^verbatim>\<open>/\<close>, is then its path relative to the root (\<^verbatim>\<open>.\<close> for the root itself).
\<close>

definition inside_root :: "filesystem \<Rightarrow> string \<Rightarrow> string \<Rightarrow> bool" where
  "inside_root fs filepath source_path =
     (let root = abs_parts (cwd fs) (resolve fs source_path);
          parts = abs_parts (cwd fs) (resolve fs filepath)
      in take (length root) parts = root)"

definition relative_to_root :: "filesystem \<Rightarrow> string \<Rightarrow> string \<Rightarrow> string" where
  "relative_to_root fs filepath source_path =
     (let root = abs_parts (cwd fs) (resolve fs source_path);
          parts = abs_parts (cwd fs) (resolve fs filepath);
          rest = drop (length root) parts
      in if rest = [] then ''.'' else join_sep ''/'' rest)"

text \<open>
  For the deletion pass: the steps for a path go through when none of the record fetch,
  the audit insert, the remote delete, the live-row delete and the commit raises; the
  audit row the pass builds from a live row; the rows the scan selects; the rows it
  removes (selected, file gone, all steps go through); a connection with nothing
  pending.
\<close>

definition deletion_steps_ok :: "runtime \<Rightarrow> string \<Rightarrow> bool" where
  "deletion_steps_ok rt p =
     (\<not> db_fails rt FetchRecord p \<and> \<not> db_fails rt InsertDeleted p
      \<and> s3_delete_error rt p = None
      \<and> \<not> db_fails rt DeleteRecord p \<and> \<not> db_fails rt CommitDelete p)"

definition audit_entry :: "runtime \<Rightarrow> string \<Rightarrow> backup_row \<Rightarrow> deleted_row" where
  "audit_entry rt bucket r =
     \<lparr>d_file_path = c_file_path r, d_s3_key = c_s3_key r,
      d_s3_full_path = ''s3://'' @ bucket @ ''/'' @ c_s3_key r,
      d_source_type = c_source_type r, d_file_size = c_file_size r,
      d_uploaded_at = c_uploaded_at r, d_md5_checksum = c_md5_checksum r,
      d_original_status = c_status r, d_deleted_at = sql_now rt (c_file_path r)\<rparr>"

definition scanned :: "string \<Rightarrow> string \<Rightarrow> backup_row \<Rightarrow> bool" where
  "scanned source_type pattern r =
     (c_source_type r = source_type \<and> c_status r = ''uploaded''
      \<and> sql_like pattern (c_file_path r))"

definition removable :: "runtime \<Rightarrow> backup_row \<Rightarrow> bool" where
  "removable rt r =
     (\<not> path_exists (filesys rt) (c_file_path r) \<and> deletion_steps_ok rt (c_file_path r))"

definition settled :: "tables \<Rightarrow> connection" where
  "settled t = \<lparr>committed = t, working = t\<rparr>"

definition removed_rows :: "runtime \<Rightarrow> string \<Rightarrow> string \<Rightarrow> tables \<Rightarrow> backup_row list" where
  "removed_rows rt source_type source_path t =
     filter (\<lambda>r. scanned source_type (resolve (filesys rt) source_path @ ''%'') r
                  \<and> removable rt r)
       (s3_backups t)"



definition error_row :: "string \<Rightarrow> string \<Rightarrow> string \<Rightarrow> backup_row option \<Rightarrow> backup_row" where
  "error_row filepath s3_key source_type existing =
     (case existing of
        None \<Rightarrow> \<lparr>c_file_path = filepath, c_s3_key = s3_key, c_source_type = source_type,
                  c_file_size = None, c_md5_checksum = None, c_status = ''error'',
                  c_uploaded_at = None\<rparr>
      | Some r \<Rightarrow> r\<lparr>c_status := ''error''\<rparr>)"

text \<open>
  For two passes in succession: the lookups of a pass go through for a list of
  candidates; a pass succeeds on them when, for each, the lookup, the upload and the
  ledger write go through.
\<close>

definition lookups_ok :: "runtime \<Rightarrow> string list \<Rightarrow> bool" where
  "lookups_ok rt ps = (\<forall>p \<in> set ps. \<not> db_fails rt SelectRecord p)"

definition run_succeeds :: "runtime \<Rightarrow> string list \<Rightarrow> bool" where
  "run_succeeds rt ps =
     (\<forall>p \<in> set ps. \<not> db_fails rt SelectRecord p \<and> \<not> upload_throws rt p
        \<and> \<not> db_fails rt Upsert p \<and> \<not> db_fails rt CommitUpsert p)"

section \<open>Basic facts\<close>

lemma db_logger [simp]: "db (logger e w) = db w"
  by (simp add: logger_def)

lemma s3_logger [simp]: "s3 (logger e w) = s3 w"
  by (simp add: logger_def)

lemma logged_logger [simp]: "logged (logger e w) = logged w @ [e]"
  by (simp add: logger_def)

section \<open>Deletion safety for inaccessible roots\<close>

text \<open>
  Claim C3. When the source root does not exist on this host, \<^verbatim>\<open>sync_deletions\<close>
  only writes the ``not accessible'' log line and returns: the connection (both the
  committed and the working tables) and the bucket, with its record of calls, are what
  they were, in a dry run or not. So no object is deleted and no ledger row is touched
  for an unmounted source.
\<close>

theorem unmounted_root_untouched:
  assumes "\<not> path_exists (filesys rt) source_path"
  shows "sync_deletions rt bucket source_type source_path dry_run w
           = (logger (LogNotAccessible source_path) w, None)
         \<and> db (fst (sync_deletions rt bucket source_type source_path dry_run w)) = db w
         \<and> s3 (fst (sync_deletions rt bucket source_type source_path dry_run w)) = s3 w"
  using assms by (simp add: sync_deletions_def)

theorem unmounted_root_untouched_witness:
  "\<not> path_exists (filesys demo_rt) ''/mnt/external-storage/images''
   \<and> s3_backups (committed (db (fst (sync_deletions demo_rt ''bkt'' ''external''
        ''/mnt/external-storage/images'' False
        (world_of [uploaded_row ''/mnt/external-storage/images/e.jpg'' ''external/e.jpg''
                     ''external''])))))
      = [uploaded_row ''/mnt/external-storage/images/e.jpg'' ''external/e.jpg'' ''external'']
   \<and> calls (s3 (fst (sync_deletions demo_rt ''bkt'' ''external''
        ''/mnt/external-storage/images'' False
        (world_of [uploaded_row ''/mnt/external-storage/images/e.jpg'' ''external/e.jpg''
                     ''external''])))) = []"
proof -
  have h: "\<not> path_exists (filesys demo_rt) ''/mnt/external-storage/images''"
    by (simp add: demo_rt_def demo_fs_def)
  show ?thesis
    using h unmounted_root_untouched [OF h, of "''bkt''" "''external''" False
        "world_of [uploaded_row ''/mnt/external-storage/images/e.jpg'' ''external/e.jpg''
                     ''external'']"]
    by (simp add: world_of_def tables_of_def)
qed

section \<open>Remote-key stability\<close>

text \<open>
  Claim C6. \<^verbatim>\<open>get_s3_key\<close> is a function of its three arguments and of what the
  filesystem answers to \<^verbatim>\<open>resolve()\<close> for the two paths (and of the working
  directory, which \<^verbatim>\<open>relpath\<close> consults for a relative path): two filesystem states
  that agree on these give the same key, whatever else differs (which files exist, their
  sizes and contents). The ledger, the bucket and the clock are not arguments at all, so
  a repeated evaluation, in the same run or after a restart, returns the same string.
\<close>

theorem key_stability:
  assumes "cwd fs' = cwd fs"
    and "resolve fs' filepath = resolve fs filepath"
    and "resolve fs' source_path = resolve fs source_path"
  shows "get_s3_key fs' filepath source_type source_path
           = get_s3_key fs filepath source_type source_path"
  using assms by (simp add: get_s3_key_def)

theorem key_stability_witness:
  "cwd (demo_fs\<lparr>path_exists := (\<lambda>p. False), rglob := (\<lambda>p. []), getsize := (\<lambda>p. None)\<rparr>)
     = cwd demo_fs
   \<and> get_s3_key (demo_fs\<lparr>path_exists := (\<lambda>p. False), rglob := (\<lambda>p. []),
                           getsize := (\<lambda>p. None)\<rparr>)
        ''/data/sub/a.jpg'' ''internal'' ''/data'' = ''internal/sub/a.jpg''
   \<and> get_s3_key demo_fs ''/data/sub/a.jpg'' ''internal'' ''/data'' = ''internal/sub/a.jpg''"
proof -
  have k: "get_s3_key demo_fs ''/data/sub/a.jpg'' ''internal'' ''/data'' = ''internal/sub/a.jpg''"
    by code_simp
  show ?thesis
    using k key_stability [of "demo_fs\<lparr>path_exists := (\<lambda>p. False), rglob := (\<lambda>p. []),
                                       getsize := (\<lambda>p. None)\<rparr>"
        demo_fs "''/data/sub/a.jpg''" "''/data''" "''internal''"]
    by simp
qed

section \<open>The ledger statements and the connection\<close>

subsection \<open>Statements on the live table\<close>

lemma select_None_iff:
  "select_by_path p t = None \<longleftrightarrow> (\<forall>r \<in> set (s3_backups t). c_file_path r \<noteq> p)"
  by (auto simp: select_by_path_def find_None_iff)

lemma select_Some_path: "select_by_path p t = Some r \<Longrightarrow> c_file_path r = p \<and> r \<in> set (s3_backups t)"
  by (auto simp: select_by_path_def find_Some_iff)

lemma find_map_update:
  assumes "\<And>r. c_file_path (f r) = c_file_path r"
  shows "find (\<lambda>r. c_file_path r = p) (map f rows)
           = map_option f (find (\<lambda>r. c_file_path r = p) rows)"
  using assms by (induction rows) auto

lemma find_map_other:
  assumes "p \<noteq> q" "\<And>r. c_file_path (g r) = c_file_path r"
  shows "find (\<lambda>r. c_file_path r = p) (map (\<lambda>r. if c_file_path r = q then g r else r) rows)
           = find (\<lambda>r. c_file_path r = p) rows"
  using assms by (induction rows) auto

lemma find_snoc:
  "find P (xs @ [x]) = (case find P xs of Some y \<Rightarrow> Some y | None \<Rightarrow> if P x then Some x else None)"
  by (induction xs) auto

lemma select_upsert_other:
  "c_file_path new \<noteq> q \<Longrightarrow> select_by_path q (sql_upsert new t) = select_by_path q t"
  by (simp add: select_by_path_def sql_upsert_def find_map_other find_snoc split: option.splits)

lemma select_upsert_same:
  "\<exists>r. select_by_path (c_file_path new) (sql_upsert new t) = Some r
       \<and> c_file_path r = c_file_path new \<and> c_s3_key r = c_s3_key new
       \<and> c_file_size r = c_file_size new \<and> c_md5_checksum r = c_md5_checksum new
       \<and> c_status r = c_status new \<and> c_uploaded_at r = c_uploaded_at new"
proof (cases "select_by_path (c_file_path new) t")
  case None
  then have fn: "find (\<lambda>r. c_file_path r = c_file_path new) (s3_backups t) = None"
    by (simp add: select_by_path_def)
  then have nex: "\<not> (\<exists>r \<in> set (s3_backups t). c_file_path r = c_file_path new)"
    by (auto simp: find_None_iff)
  show ?thesis
    using fn nex by (simp add: select_by_path_def sql_upsert_def find_snoc)
next
  case (Some r0)
  then have ex: "\<exists>r \<in> set (s3_backups t). c_file_path r = c_file_path new"
    by (auto simp: select_by_path_def find_Some_iff)
  have p0: "c_file_path r0 = c_file_path new"
    using Some by (auto simp: select_by_path_def find_Some_iff)
  show ?thesis
    using ex Some p0 by (simp add: select_by_path_def sql_upsert_def find_map_update)
qed


lemma mark_error_existing:
  assumes "select_by_path filepath t = Some r"
  shows "sql_mark_error filepath k st t =
           t\<lparr>s3_backups := map (\<lambda>x. if c_file_path x = filepath then x\<lparr>c_status := ''error''\<rparr> else x)
                              (s3_backups t)\<rparr>"
    and "select_by_path filepath (sql_mark_error filepath k st t) = Some (r\<lparr>c_status := ''error''\<rparr>)"
proof -
  have ex: "\<exists>r \<in> set (s3_backups t). c_file_path r = filepath"
    using assms by (auto simp: select_by_path_def find_Some_iff)
  show "sql_mark_error filepath k st t =
           t\<lparr>s3_backups := map (\<lambda>x. if c_file_path x = filepath then x\<lparr>c_status := ''error''\<rparr> else x)
                              (s3_backups t)\<rparr>"
    using ex by (simp add: sql_mark_error_def)
  have p0: "c_file_path r = filepath"
    using assms by (auto simp: select_by_path_def find_Some_iff)
  show "select_by_path filepath (sql_mark_error filepath k st t) = Some (r\<lparr>c_status := ''error''\<rparr>)"
    using ex assms p0 by (simp add: select_by_path_def sql_mark_error_def find_map_update)
qed

lemma mark_error_new:
  assumes "select_by_path filepath t = None"
  shows "sql_mark_error filepath k st t =
           t\<lparr>s3_backups := s3_backups t @
             [\<lparr>c_file_path = filepath, c_s3_key = k, c_source_type = st,
               c_file_size = None, c_md5_checksum = None,
               c_status = ''error'', c_uploaded_at = None\<rparr>]\<rparr>"
    and "select_by_path filepath (sql_mark_error filepath k st t) =
           Some \<lparr>c_file_path = filepath, c_s3_key = k, c_source_type = st,
               c_file_size = None, c_md5_checksum = None,
               c_status = ''error'', c_uploaded_at = None\<rparr>"
proof -
  have fn: "find (\<lambda>r. c_file_path r = filepath) (s3_backups t) = None"
    using assms by (simp add: select_by_path_def)
  then have nex: "\<not> (\<exists>r \<in> set (s3_backups t). c_file_path r = filepath)"
    by (auto simp: find_None_iff)
  show "sql_mark_error filepath k st t =
           t\<lparr>s3_backups := s3_backups t @
             [\<lparr>c_file_path = filepath, c_s3_key = k, c_source_type = st,
               c_file_size = None, c_md5_checksum = None,
               c_status = ''error'', c_uploaded_at = None\<rparr>]\<rparr>"
    using nex by (simp add: sql_mark_error_def column_default_def)
  show "select_by_path filepath (sql_mark_error filepath k st t) =
           Some \<lparr>c_file_path = filepath, c_s3_key = k, c_source_type = st,
               c_file_size = None, c_md5_checksum = None,
               c_status = ''error'', c_uploaded_at = None\<rparr>"
    using fn nex by (simp add: select_by_path_def sql_mark_error_def find_snoc column_default_def)
qed

subsection \<open>The connection\<close>

lemma committed_commit [simp]: "committed (commit c) = working c"
  by (simp add: commit_def)
lemma working_commit [simp]: "working (commit c) = working c"
  by (simp add: commit_def)
lemma committed_rollback [simp]: "committed (rollback c) = committed c"
  by (simp add: rollback_def)
lemma working_rollback [simp]: "working (rollback c) = committed c"
  by (simp add: rollback_def)
lemma committed_execute [simp]: "committed (execute stmt c) = committed c"
  by (simp add: execute_def)
lemma working_execute [simp]: "working (execute stmt c) = stmt (working c)"
  by (simp add: execute_def)
lemma clean_commit [simp]: "clean (commit c)"
  by (simp add: clean_def)
lemma clean_rollback [simp]: "clean (rollback c)"
  by (simp add: clean_def)

subsection \<open>A candidate that is uploaded\<close>

lemma archived_code:
  "(case select_by_path p t of None \<Rightarrow> False | Some r \<Rightarrow> c_status r = ''uploaded'') = archived t p"
  by (simp add: archived_def)


lemma db_calculate_md5 [simp]: "db (snd (calculate_md5 rt p w)) = db w"
  by (simp add: calculate_md5_def)

lemma s3_calculate_md5 [simp]: "s3 (snd (calculate_md5 rt p w)) = s3 w"
  by (simp add: calculate_md5_def)

lemma process_candidate_uploads:
  assumes "\<not> db_fails rt SelectRecord p"
    and "\<not> archived (working (db w)) p"
    and "getsize (filesys rt) p = Some n"
    and "\<not> upload_open_fails rt p"
    and "s3_upload_error rt p = None"
    and "\<not> db_fails rt Upsert p"
    and "\<not> db_fails rt CommitUpsert p"
  shows "db (fst (process_candidate rt bucket st spr False p (w, c)))
           = commit (execute (sql_upsert
               \<lparr>c_file_path = p, c_s3_key = get_s3_key (filesys rt) p st spr,
                 c_source_type = st, c_file_size = Some n,
                 c_md5_checksum = fst (calculate_md5 rt p w), c_status = ''uploaded'',
                 c_uploaded_at = Some (sql_now rt p)\<rparr>) (db w))"
    and "s3 (fst (process_candidate rt bucket st spr False p (w, c)))
           = upload_fileobj p (get_s3_key (filesys rt) p st spr)
               \<lparr>obj_body = file_bytes (filesys rt) p,
                 obj_tags = \<lparr>tag_source_type = st, tag_upload_date = datetime_now rt p,
                             tag_file_size = n, tag_original_path = p\<rparr>\<rparr> (s3 w)"
    and "snd (process_candidate rt bucket st spr False p (w, c))
           = c\<lparr>uploaded_count := uploaded_count c + 1\<rparr>"
  using assms
  by (simp_all add: process_candidate_def file_in_database_def archived_code
        upload_file_to_s3_def insert_into_database_def calculate_md5_def Let_def)

section \<open>The error-path upsert\<close>

text \<open>
  Claim C10. When a candidate has failed in a real run and the error-path statement and
  its commit go through: if the ledger already has a row for the path, the table after
  is the table before with the status of that row set to \<^verbatim>\<open>error\<close> and nothing
  else changed (key, source type, size, checksum and timestamp of the row stay, and so do
  all other rows); if it has none, one row is appended with the path, the key computed by
  \<^verbatim>\<open>get_s3_key\<close>, the source type, status \<^verbatim>\<open>error\<close> and no size, checksum or
  timestamp. The audit table is not touched.
\<close>

theorem error_upsert_frame:
  assumes "\<not> db_fails rt MarkError filepath"
    and "\<not> db_fails rt CommitMarkError filepath"
    and "clean (db w)"
  shows "(\<forall>r. select_by_path filepath (committed (db w)) = Some r \<longrightarrow>
            s3_backups (committed (db (fst (mark_as_error rt source_type source_path_resolved
                                              False filepath (w, c)))))
              = map (\<lambda>x. if c_file_path x = filepath then x\<lparr>c_status := ''error''\<rparr> else x)
                    (s3_backups (committed (db w)))
            \<and> select_by_path filepath
                 (committed (db (fst (mark_as_error rt source_type source_path_resolved
                                   False filepath (w, c)))))
                = Some (r\<lparr>c_status := ''error''\<rparr>))
       \<and> (select_by_path filepath (committed (db w)) = None \<longrightarrow>
            s3_backups (committed (db (fst (mark_as_error rt source_type source_path_resolved
                                              False filepath (w, c)))))
              = s3_backups (committed (db w)) @
                  [\<lparr>c_file_path = filepath,
                    c_s3_key = get_s3_key (filesys rt) filepath source_type source_path_resolved,
                    c_source_type = source_type, c_file_size = None, c_md5_checksum = None,
                    c_status = ''error'', c_uploaded_at = None\<rparr>])
       \<and> s3_backups_deleted (committed (db (fst (mark_as_error rt source_type
                                   source_path_resolved False filepath (w, c)))))
           = s3_backups_deleted (committed (db w))"
proof -
  let ?k = "get_s3_key (filesys rt) filepath source_type source_path_resolved"
  let ?t = "committed (db w)"
  have w: "working (db w) = ?t"
    using assms(3) by (simp add: clean_def)
  have res: "committed (db (fst (mark_as_error rt source_type source_path_resolved False
                                   filepath (w, c))))
               = sql_mark_error filepath ?k source_type ?t"
    using assms(1,2) w by (simp add: mark_as_error_def Let_def)
  have aud: "s3_backups_deleted (sql_mark_error filepath ?k source_type ?t)
               = s3_backups_deleted ?t"
    by (simp add: sql_mark_error_def)
  show ?thesis
    unfolding res
  proof (intro conjI allI impI)
    fix r assume "select_by_path filepath ?t = Some r"
    then show "s3_backups (sql_mark_error filepath ?k source_type ?t)
                 = map (\<lambda>x. if c_file_path x = filepath then x\<lparr>c_status := ''error''\<rparr> else x)
                       (s3_backups ?t)"
      by (simp add: mark_error_existing(1))
  next
    fix r assume "select_by_path filepath ?t = Some r"
    then show "select_by_path filepath (sql_mark_error filepath ?k source_type ?t)
                 = Some (r\<lparr>c_status := ''error''\<rparr>)"
      by (rule mark_error_existing(2))
  next
    assume "select_by_path filepath ?t = None"
    then show "s3_backups (sql_mark_error filepath ?k source_type ?t)
                 = s3_backups ?t @
                     [\<lparr>c_file_path = filepath, c_s3_key = ?k, c_source_type = source_type,
                       c_file_size = None, c_md5_checksum = None,
                       c_status = ''error'', c_uploaded_at = None\<rparr>]"
      by (simp add: mark_error_new(1))
  next
    show "s3_backups_deleted (sql_mark_error filepath ?k source_type ?t)
            = s3_backups_deleted ?t"
      by (rule aud)
  qed
qed

theorem error_upsert_frame_witness:
  "\<not> db_fails demo_rt MarkError ''/data/a.jpg''
   \<and> \<not> db_fails demo_rt CommitMarkError ''/data/a.jpg''
   \<and> clean (db (world_of [stale_row]))
   \<and> select_by_path ''/data/a.jpg'' (committed (db (world_of [stale_row]))) = Some stale_row
   \<and> s3_backups (committed (db (fst (mark_as_error demo_rt ''internal'' ''/data'' False
         ''/data/a.jpg'' (world_of [stale_row], no_counts)))))
       = [stale_row\<lparr>c_status := ''error''\<rparr>]
   \<and> select_by_path ''/data/a.jpg'' (committed (db (world_of []))) = None
   \<and> s3_backups (committed (db (fst (mark_as_error demo_rt ''internal'' ''/data'' False
         ''/data/a.jpg'' (world_of [], no_counts)))))
       = [\<lparr>c_file_path = ''/data/a.jpg'', c_s3_key = ''internal/a.jpg'',
            c_source_type = ''internal'', c_file_size = None, c_md5_checksum = None,
            c_status = ''error'', c_uploaded_at = None\<rparr>]"
proof -
  have h1: "\<not> db_fails demo_rt MarkError ''/data/a.jpg''"
    and h2: "\<not> db_fails demo_rt CommitMarkError ''/data/a.jpg''"
    by (simp_all add: demo_rt_def)
  have c1: "clean (db (world_of [stale_row]))" and c0: "clean (db (world_of []))"
    by (simp_all add: clean_def world_of_def)
  have s1: "select_by_path ''/data/a.jpg'' (committed (db (world_of [stale_row]))) = Some stale_row"
    by (simp add: select_by_path_def world_of_def tables_of_def stale_row_def)
  have s0: "select_by_path ''/data/a.jpg'' (committed (db (world_of []))) = None"
    by (simp add: select_by_path_def world_of_def tables_of_def)
  have k: "get_s3_key (filesys demo_rt) ''/data/a.jpg'' ''internal'' ''/data'' = ''internal/a.jpg''"
    by code_simp
  have p: "c_file_path stale_row = ''/data/a.jpg''"
    by (simp add: stale_row_def)
  show ?thesis
    using h1 h2 c1 s1 s0 k p
      error_upsert_frame [OF h1 h2 c1, of "''internal''" "''/data''" no_counts]
      error_upsert_frame [OF h1 h2 c0, of "''internal''" "''/data''" no_counts]
    by (simp add: world_of_def tables_of_def)
qed

section \<open>An upload without a checksum\<close>

text \<open>
  Claim C9. For a candidate that is not yet archived, whose size can be read, whose
  bytes cannot be read when \<^verbatim>\<open>calculate_md5\<close> runs but can be when the upload
  streams them, and for which the S3 call and the ledger write succeed:
  \<^verbatim>\<open>calculate_md5\<close> returns \<^verbatim>\<open>None\<close> (after a warning, without raising), the
  object is uploaded, the ledger row of the path has status \<^verbatim>\<open>uploaded\<close> with a
  null checksum, and the candidate counts as uploaded, not as an error.
\<close>

theorem null_checksum_upload:
  assumes "\<not> db_fails rt SelectRecord p"
    and "\<not> archived (working (db w)) p"
    and "getsize (filesys rt) p = Some n"
    and "fingerprint_read_fails rt p"
    and "\<not> upload_open_fails rt p"
    and "s3_upload_error rt p = None"
    and "\<not> db_fails rt Upsert p"
    and "\<not> db_fails rt CommitUpsert p"
  shows "calculate_md5 rt p w = (None, logger (LogMd5Failed p) w)
       \<and> (\<exists>r. select_by_path p
                 (committed (db (fst (process_candidate rt bucket st spr False p (w, c)))))
                 = Some r
               \<and> c_status r = ''uploaded'' \<and> c_md5_checksum r = None
               \<and> c_file_size r = Some n
               \<and> c_s3_key r = get_s3_key (filesys rt) p st spr)
       \<and> calls (s3 (fst (process_candidate rt bucket st spr False p (w, c))))
           = calls (s3 w) @ [UploadFileobj (get_s3_key (filesys rt) p st spr) p]
       \<and> snd (process_candidate rt bucket st spr False p (w, c))
           = c\<lparr>uploaded_count := uploaded_count c + 1\<rparr>"
proof -
  let ?new = "\<lparr>c_file_path = p, c_s3_key = get_s3_key (filesys rt) p st spr,
                 c_source_type = st, c_file_size = Some n,
                 c_md5_checksum = None, c_status = ''uploaded'',
                 c_uploaded_at = Some (sql_now rt p)\<rparr>"
  have md5: "calculate_md5 rt p w = (None, logger (LogMd5Failed p) w)"
    using assms(4) by (simp add: calculate_md5_def)
  have d: "committed (db (fst (process_candidate rt bucket st spr False p (w, c))))
             = sql_upsert ?new (working (db w))"
    using process_candidate_uploads(1) [OF assms(1,2,3,5,6,7,8), of bucket st spr c] md5
    by simp
  obtain r where r: "select_by_path p (sql_upsert ?new (working (db w))) = Some r"
      "c_status r = ''uploaded''" "c_md5_checksum r = None" "c_file_size r = Some n"
      "c_s3_key r = get_s3_key (filesys rt) p st spr"
    using select_upsert_same [of ?new "working (db w)"] by auto
  have s: "calls (s3 (fst (process_candidate rt bucket st spr False p (w, c))))
             = calls (s3 w) @ [UploadFileobj (get_s3_key (filesys rt) p st spr) p]"
    using process_candidate_uploads(2) [OF assms(1,2,3,5,6,7,8), of bucket st spr c]
    by (simp add: upload_fileobj_def)
  show ?thesis
    using md5 d r s process_candidate_uploads(3) [OF assms(1,2,3,5,6,7,8), of bucket st spr c]
    by simp
qed

theorem null_checksum_upload_witness:
  "\<not> db_fails unreadable_rt SelectRecord ''/data/a.jpg''
   \<and> \<not> archived (working (db (world_of []))) ''/data/a.jpg''
   \<and> getsize (filesys unreadable_rt) ''/data/a.jpg'' = Some 3
   \<and> fingerprint_read_fails unreadable_rt ''/data/a.jpg''
   \<and> \<not> upload_open_fails unreadable_rt ''/data/a.jpg''
   \<and> s3_upload_error unreadable_rt ''/data/a.jpg'' = None
   \<and> \<not> db_fails unreadable_rt Upsert ''/data/a.jpg''
   \<and> \<not> db_fails unreadable_rt CommitUpsert ''/data/a.jpg''
   \<and> s3_backups (committed (db (fst (process_candidate unreadable_rt ''bkt'' ''internal''
         ''/data'' False ''/data/a.jpg'' (world_of [], no_counts)))))
       = [\<lparr>c_file_path = ''/data/a.jpg'', c_s3_key = ''internal/a.jpg'',
            c_source_type = ''internal'', c_file_size = Some 3, c_md5_checksum = None,
            c_status = ''uploaded'', c_uploaded_at = Some 101\<rparr>]
   \<and> calls (s3 (fst (process_candidate unreadable_rt ''bkt'' ''internal''
         ''/data'' False ''/data/a.jpg'' (world_of [], no_counts))))
       = [UploadFileobj ''internal/a.jpg'' ''/data/a.jpg'']"
proof -
  have h1: "\<not> db_fails unreadable_rt SelectRecord ''/data/a.jpg''"
    and h3: "getsize (filesys unreadable_rt) ''/data/a.jpg'' = Some 3"
    and h4: "fingerprint_read_fails unreadable_rt ''/data/a.jpg''"
    and h5: "\<not> upload_open_fails unreadable_rt ''/data/a.jpg''"
    and h6: "s3_upload_error unreadable_rt ''/data/a.jpg'' = None"
    and h7: "\<not> db_fails unreadable_rt Upsert ''/data/a.jpg''"
    and h8: "\<not> db_fails unreadable_rt CommitUpsert ''/data/a.jpg''"
    by (simp_all add: unreadable_rt_def demo_rt_def demo_fs_def)
  have h2: "\<not> archived (working (db (world_of []))) ''/data/a.jpg''"
    by (simp add: archived_def select_by_path_def world_of_def tables_of_def)
  have k: "get_s3_key (filesys unreadable_rt) ''/data/a.jpg'' ''internal'' ''/data'' = ''internal/a.jpg''"
    by code_simp
  have t: "s3_backups (committed (db (fst (process_candidate unreadable_rt ''bkt'' ''internal''
         ''/data'' False ''/data/a.jpg'' (world_of [], no_counts)))))
       = [\<lparr>c_file_path = ''/data/a.jpg'', c_s3_key = ''internal/a.jpg'',
            c_source_type = ''internal'', c_file_size = Some 3, c_md5_checksum = None,
            c_status = ''uploaded'', c_uploaded_at = Some 101\<rparr>]"
    by code_simp
  show ?thesis
    using h1 h2 h3 h4 h5 h6 h7 h8 k t
      null_checksum_upload [OF h1 h2 h3 h4 h5 h6 h7 h8, of "''bkt''" "''internal''" "''/data''" no_counts]
    by (simp add: world_of_def)
qed

section \<open>Dry runs\<close>

subsection \<open>Neither the connection nor the bucket changes\<close>









subsection \<open>What a dry run logs\<close>










subsection \<open>The dry-run frame\<close>



section \<open>Remote-key derivation: relative path or base name\<close>

subsection \<open>Components, join and relpath\<close>

lemma split_sep_nonempty: "split_sep sep s \<noteq> []"
  by (induction s) (auto split: list.splits)







lemma startswith_append: "startswith (p @ s) p"
  by (simp add: startswith_def)



subsection \<open>The key of a path outside and inside the root\<close>




text \<open>
  The amended claim says nothing about a path inside the root whose relative path
  begins with two dots without being a parent-directory step, such as a file in a
  directory named \<^verbatim>\<open>..x\<close>. The test \<^verbatim>\<open>relative_path.startswith('..')\<close> takes it
  for an escape from the root and the key is built from the base name alone.
\<close>

lemma dotted_directory_key:
  "inside_root demo_fs ''/data/..x/a.jpg'' ''/data''
   \<and> relative_to_root demo_fs ''/data/..x/a.jpg'' ''/data'' = ''..x/a.jpg''
   \<and> get_s3_key demo_fs ''/data/..x/a.jpg'' ''internal'' ''/data'' = ''internal/a.jpg''"
  by code_simp

section \<open>The selection of the deletion scan\<close>

text \<open>
  Claim C7 says that the deletion pass considers exactly the rows of the source type
  with status \<^verbatim>\<open>uploaded\<close> whose path is under the resolved source root, and none
  outside it. The scan selects by \<^verbatim>\<open>file_path LIKE\<close> the resolved root followed by
  \<^verbatim>\<open>%\<close>, a match on the characters of the path: for the root \<^verbatim>\<open>/data/img\<close>
  it also selects a row of \<^verbatim>\<open>/data/img2/a.jpg\<close>, which is not inside the root. The
  file being absent, the pass deletes the object, writes the audit row and removes the
  live row.
\<close>

theorem deletion_scan_takes_sibling:
  "path_exists (filesys sibling_rt) ''/data/img''
   \<and> \<not> inside_root (filesys sibling_rt) ''/data/img2/a.jpg'' ''/data/img''
   \<and> sql_list_uploaded ''internal'' (resolve (filesys sibling_rt) ''/data/img'' @ ''%'')
        (tables_of [sibling_row])
       = [(''/data/img2/a.jpg'', ''internal/a.jpg'')]
   \<and> calls (s3 (fst (sync_deletions sibling_rt ''bkt'' ''internal'' ''/data/img'' False
                        (world_of [sibling_row]))))
       = [DeleteObject ''internal/a.jpg'']
   \<and> s3_backups (committed (db (fst (sync_deletions sibling_rt ''bkt'' ''internal''
                                        ''/data/img'' False (world_of [sibling_row]))))) = []
   \<and> map d_file_path (s3_backups_deleted (committed (db (fst (sync_deletions sibling_rt ''bkt''
                         ''internal'' ''/data/img'' False (world_of [sibling_row]))))))
       = [''/data/img2/a.jpg'']"
  by code_simp

section \<open>The deletion pass: atomicity and audit\<close>

subsection \<open>One scanned row\<close>

lemma clean_settled: "clean c \<longleftrightarrow> c = settled (committed c)"
  by (cases c) (auto simp: clean_def settled_def)

lemma rollback_clean: "clean c \<Longrightarrow> rollback c = c"
  by (simp add: clean_def rollback_def)

lemma delete_candidate_keeps:
  assumes "clean (db w)"
    and "path_exists (filesys rt) p \<or> \<not> deletion_steps_ok rt p
         \<or> select_by_path p (committed (db w)) = None"
  shows "db (fst (delete_candidate rt bucket False (p, k) (w, c))) = db w"
proof -
  have w: "working (db w) = committed (db w)"
    using assms(1) by (simp add: clean_def)
  have r: "rollback (db w) = db w"
    using assms(1) by (rule rollback_clean)
  have r2: "\<And>stmt. rollback (execute stmt (db w)) = db w"
    using assms(1) by (cases "db w") (simp add: clean_def rollback_def execute_def)
  show ?thesis
    using assms(2) w r r2
    by (auto simp: delete_candidate_def delete_failed_def deletion_steps_ok_def Let_def
          split: option.splits)
qed

lemma delete_candidate_removes:
  assumes "clean (db w)"
    and "\<not> path_exists (filesys rt) p"
    and "deletion_steps_ok rt p"
    and "select_by_path p (committed (db w)) = Some r"
  shows "db (fst (delete_candidate rt bucket False (p, k) (w, c)))
           = settled (sql_delete_by_path p
               (sql_insert_deleted (audit_entry rt bucket r) (committed (db w))))"
    and "s3 (fst (delete_candidate rt bucket False (p, k) (w, c))) = delete_object k (s3 w)"
proof -
  have w: "working (db w) = committed (db w)"
    using assms(1) by (simp add: clean_def)
  have p: "c_file_path r = p"
    using assms(4) by (simp add: select_Some_path)
  show "db (fst (delete_candidate rt bucket False (p, k) (w, c)))
           = settled (sql_delete_by_path p
               (sql_insert_deleted (audit_entry rt bucket r) (committed (db w))))"
    using assms(2,3,4) w p
    by (simp add: delete_candidate_def deletion_steps_ok_def Let_def audit_entry_def
          settled_def commit_def execute_def)
  show "s3 (fst (delete_candidate rt bucket False (p, k) (w, c))) = delete_object k (s3 w)"
    using assms(2,3,4) w
    by (simp add: delete_candidate_def deletion_steps_ok_def Let_def)
qed

lemma delete_candidate_clean:
  assumes "clean (db (fst s))"
  shows "clean (db (fst (delete_candidate rt bucket dry_run row s)))"
proof -
  obtain w c where s: "s = (w, c)" by (cases s)
  obtain p k where row: "row = (p, k)" by (cases row)
  show ?thesis
    using assms unfolding s row
    by (auto simp: delete_candidate_def delete_failed_def Let_def split: option.splits)
qed

subsection \<open>The loop over the scanned rows\<close>

lemma select_distinct_member:
  assumes "distinct (map c_file_path (s3_backups t))" and "r \<in> set (s3_backups t)"
  shows "select_by_path (c_file_path r) t = Some r"
proof -
  have "\<And>rows. distinct (map c_file_path rows) \<Longrightarrow> r \<in> set rows
          \<Longrightarrow> find (\<lambda>x. c_file_path x = c_file_path r) rows = Some r"
  proof -
    fix rows
    show "distinct (map c_file_path rows) \<Longrightarrow> r \<in> set rows
          \<Longrightarrow> find (\<lambda>x. c_file_path x = c_file_path r) rows = Some r"
      by (induction rows) (auto simp: image_iff)
  qed
  then show ?thesis using assms by (simp add: select_by_path_def)
qed

lemma committed_settled [simp]: "committed (settled t) = t"
  by (simp add: settled_def)

lemma working_settled [simp]: "working (settled t) = t"
  by (simp add: settled_def)

lemma clean_settled_tables [simp]: "clean (settled t)"
  by (simp add: settled_def clean_def)

lemma tables_eta:
  "\<lparr>s3_backups = s3_backups t, s3_backups_deleted = s3_backups_deleted t\<rparr> = t"
  by (cases t) simp

lemma delete_loop_effect:
  assumes "clean (db w)"
    and "distinct (map c_file_path (s3_backups (committed (db w))))"
    and "distinct (map c_file_path rs)"
    and "set rs \<subseteq> set (s3_backups (committed (db w)))"
  shows "db (fst (delete_loop rt bucket False (map (\<lambda>r. (c_file_path r, c_s3_key r)) rs) (w, c)))
     = settled
         \<lparr>s3_backups =
            filter (\<lambda>x. c_file_path x \<notin> c_file_path ` set (filter (removable rt) rs))
              (s3_backups (committed (db w))),
          s3_backups_deleted =
            s3_backups_deleted (committed (db w))
              @ map (audit_entry rt bucket) (filter (removable rt) rs)\<rparr>"
  using assms
proof (induction rs arbitrary: w c)
  case Nil
  have "db w = settled (committed (db w))"
    using Nil.prems(1) by (simp add: clean_settled)
  then show ?case by (simp add: tables_eta)
next
  case (Cons r rs)
  let ?t = "committed (db w)"
  let ?p = "c_file_path r"
  let ?s' = "delete_candidate rt bucket False (?p, c_s3_key r) (w, c)"
  obtain w' c' where s': "?s' = (w', c')" by (cases ?s')
  have sel: "select_by_path ?p ?t = Some r"
    using Cons.prems(2,4) by (intro select_distinct_member) auto
  have notin: "?p \<notin> c_file_path ` set rs"
    using Cons.prems(3) by auto
  show ?case
  proof (cases "removable rt r")
    case True
    let ?t' = "sql_delete_by_path ?p (sql_insert_deleted (audit_entry rt bucket r) ?t)"
    have "db (fst ?s') = settled ?t'"
      using True Cons.prems(1) sel
      by (intro delete_candidate_removes) (simp_all add: removable_def)
    then have dbw': "db w' = settled ?t'" by (simp add: s')
    have rows': "s3_backups ?t' = filter (\<lambda>x. c_file_path x \<noteq> ?p) (s3_backups ?t)"
      and aud': "s3_backups_deleted ?t' = s3_backups_deleted ?t @ [audit_entry rt bucket r]"
      by (simp_all add: sql_delete_by_path_def sql_insert_deleted_def)
    have c1: "clean (db w')" by (simp add: dbw')
    have c2: "distinct (map c_file_path (s3_backups (committed (db w'))))"
      using Cons.prems(2) by (simp add: dbw' rows' distinct_map_filter)
    have c3: "distinct (map c_file_path rs)"
      using Cons.prems(3) by simp
    have c4: "set rs \<subseteq> set (s3_backups (committed (db w')))"
      using Cons.prems(4) notin by (force simp: dbw' rows' image_iff)
    have flt: "filter (\<lambda>x. c_file_path x \<notin> c_file_path ` set (filter (removable rt) rs))
                 (filter (\<lambda>x. c_file_path x \<noteq> ?p) (s3_backups ?t))
               = filter (\<lambda>x. c_file_path x \<notin> c_file_path ` set (filter (removable rt) (r # rs)))
                   (s3_backups ?t)"
      using True by (auto intro: filter_cong)
    show ?thesis
      using Cons.IH [OF c1 c2 c3 c4, of c'] True flt
      by (simp add: s' dbw' rows' aud')
  next
    case False
    have "db (fst ?s') = db w"
      using False Cons.prems(1)
      by (intro delete_candidate_keeps) (auto simp: removable_def)
    then have dbw': "db w' = db w" by (simp add: s')
    show ?thesis
      using Cons.IH [of w' c'] Cons.prems False
      by (simp add: s' dbw')
  qed
qed

lemma sql_list_uploaded_scanned:
  "sql_list_uploaded st pattern t
     = map (\<lambda>r. (c_file_path r, c_s3_key r)) (filter (scanned st pattern) (s3_backups t))"
  by (simp add: sql_list_uploaded_def scanned_def [abs_def])

lemma filter_by_path_set:
  assumes "distinct (map c_file_path rows)" and "set sub \<subseteq> set rows"
  shows "filter (\<lambda>x. c_file_path x \<notin> c_file_path ` set sub) rows
           = filter (\<lambda>x. x \<notin> set sub) rows"
proof (rule filter_cong [OF refl])
  fix x assume x: "x \<in> set rows"
  have inj: "inj_on c_file_path (set rows)"
    using assms(1) by (simp add: distinct_map)
  show "(c_file_path x \<notin> c_file_path ` set sub) = (x \<notin> set sub)"
    using inj x assms(2) by (auto simp: inj_on_def)
qed

subsection \<open>Atomicity and audit completeness\<close>

text \<open>
  Claim C2. Take a real run of \<^verbatim>\<open>sync_deletions\<close> on an accessible root, started
  with nothing pending on the connection and with \<^verbatim>\<open>file_path\<close> unique in the live
  table (the key of \<^verbatim>\<open>ON CONFLICT\<close>). Call removed the scanned rows whose file is
  gone and for which record fetch, audit insert, remote delete, live-row delete and
  commit all go through. Then the committed live table after the pass is the one before
  without the removed rows, and the committed audit table is the one before followed by
  one audit row per removed row, in order, each with the path, key and status of its
  live row; nothing is left pending. A scanned row for which some step fails is
  therefore still in the live table, has no audit row, and does not keep the rows after
  it from being processed. For a single row: if a step fails the connection is rolled
  back to what it was; if all go through, the audit insert and the live-row delete are
  committed together.
\<close>

theorem deletion_atomic_and_audited:
  assumes "clean (db w)"
    and "distinct (map c_file_path (s3_backups (committed (db w))))"
    and "path_exists (filesys rt) source_path"
    and "\<not> db_fails rt ListUploaded source_path"
  shows "s3_backups (committed (db (fst (sync_deletions rt bucket source_type source_path
                                          False w))))
           = filter (\<lambda>r. r \<notin> set (removed_rows rt source_type source_path (committed (db w))))
               (s3_backups (committed (db w)))
       \<and> s3_backups_deleted (committed (db (fst (sync_deletions rt bucket source_type
                                                  source_path False w))))
           = s3_backups_deleted (committed (db w))
               @ map (audit_entry rt bucket)
                   (removed_rows rt source_type source_path (committed (db w)))
       \<and> clean (db (fst (sync_deletions rt bucket source_type source_path False w)))
       \<and> (\<forall>p k c. \<not> deletion_steps_ok rt p \<longrightarrow>
             db (fst (delete_candidate rt bucket False (p, k) (w, c))) = db w)
       \<and> (\<forall>p k c r. \<not> path_exists (filesys rt) p \<and> deletion_steps_ok rt p
              \<and> select_by_path p (committed (db w)) = Some r \<longrightarrow>
             db (fst (delete_candidate rt bucket False (p, k) (w, c)))
               = settled (sql_delete_by_path p
                   (sql_insert_deleted (audit_entry rt bucket r) (committed (db w)))))
       \<and> (\<forall>r. d_file_path (audit_entry rt bucket r) = c_file_path r
              \<and> d_s3_key (audit_entry rt bucket r) = c_s3_key r
              \<and> d_original_status (audit_entry rt bucket r) = c_status r)"
proof -
  let ?t = "committed (db w)"
  let ?pat = "resolve (filesys rt) source_path @ ''%''"
  let ?rs = "filter (scanned source_type ?pat) (s3_backups ?t)"
  let ?w1 = "logger (LogSyncing source_type source_path) w"
  have wk: "working (db w) = ?t"
    using assms(1) by (simp add: clean_def)
  have rem: "filter (removable rt) ?rs = removed_rows rt source_type source_path ?t"
    by (simp add: removed_rows_def conj_commute)
  have loop: "db (fst (delete_loop rt bucket False
                  (map (\<lambda>r. (c_file_path r, c_s3_key r)) ?rs) (?w1, no_counts)))
     = settled
         \<lparr>s3_backups =
            filter (\<lambda>x. c_file_path x \<notin> c_file_path ` set (filter (removable rt) ?rs))
              (s3_backups (committed (db ?w1))),
          s3_backups_deleted =
            s3_backups_deleted (committed (db ?w1))
              @ map (audit_entry rt bucket) (filter (removable rt) ?rs)\<rparr>"
    using assms(1,2) by (intro delete_loop_effect) (auto simp: distinct_map_filter)
  have sd: "db (fst (sync_deletions rt bucket source_type source_path False w))
     = db (fst (delete_loop rt bucket False
                  (map (\<lambda>r. (c_file_path r, c_s3_key r)) ?rs) (?w1, no_counts)))"
    using assms(3,4)
    by (simp add: sync_deletions_def Let_def case_prod_beta wk sql_list_uploaded_scanned)
  have res: "db (fst (sync_deletions rt bucket source_type source_path False w))
     = settled
         \<lparr>s3_backups =
            filter (\<lambda>x. c_file_path x \<notin> c_file_path `
                      set (removed_rows rt source_type source_path ?t))
              (s3_backups ?t),
          s3_backups_deleted =
            s3_backups_deleted ?t
              @ map (audit_entry rt bucket) (removed_rows rt source_type source_path ?t)\<rparr>"
    unfolding sd loop rem by simp
  have sub: "set (removed_rows rt source_type source_path ?t) \<subseteq> set (s3_backups ?t)"
    by (auto simp: removed_rows_def)
  have keep: "\<And>p k c. \<not> deletion_steps_ok rt p \<Longrightarrow>
             db (fst (delete_candidate rt bucket False (p, k) (w, c))) = db w"
    using assms(1) by (intro delete_candidate_keeps) simp_all
  have gone: "\<And>p k c r. \<not> path_exists (filesys rt) p \<and> deletion_steps_ok rt p
              \<and> select_by_path p (committed (db w)) = Some r \<Longrightarrow>
             db (fst (delete_candidate rt bucket False (p, k) (w, c)))
               = settled (sql_delete_by_path p
                   (sql_insert_deleted (audit_entry rt bucket r) (committed (db w))))"
    using assms(1) by (intro delete_candidate_removes) simp_all
  have fields: "\<forall>r. d_file_path (audit_entry rt bucket r) = c_file_path r
              \<and> d_s3_key (audit_entry rt bucket r) = c_s3_key r
              \<and> d_original_status (audit_entry rt bucket r) = c_status r"
    by (simp add: audit_entry_def)
  show ?thesis
    using keep gone fields
    by (simp add: res filter_by_path_set [OF assms(2) sub])
qed

theorem deletion_atomic_and_audited_witness:
  "clean (db (world_of ledger_bc))
   \<and> distinct (map c_file_path (s3_backups (committed (db (world_of ledger_bc)))))
   \<and> path_exists (filesys demo_rt) ''/data''
   \<and> \<not> db_fails demo_rt ListUploaded ''/data''
   \<and> removed_rows demo_rt ''internal'' ''/data'' (committed (db (world_of ledger_bc)))
       = [uploaded_row ''/data/c.jpg'' ''internal/c.jpg'' ''internal'']
   \<and> s3_backups (committed (db (fst (sync_deletions demo_rt ''bkt'' ''internal'' ''/data''
                                        False (world_of ledger_bc)))))
       = [uploaded_row ''/data/b.jpg'' ''internal/b.jpg'' ''internal'']
   \<and> s3_backups_deleted (committed (db (fst (sync_deletions demo_rt ''bkt'' ''internal''
                                        ''/data'' False (world_of ledger_bc)))))
       = [audit_entry demo_rt ''bkt''
            (uploaded_row ''/data/c.jpg'' ''internal/c.jpg'' ''internal'')]
   \<and> \<not> path_exists (filesys demo_rt) ''/data/c.jpg''
   \<and> deletion_steps_ok demo_rt ''/data/c.jpg''
   \<and> select_by_path ''/data/c.jpg'' (committed (db (world_of ledger_bc)))
       = Some (uploaded_row ''/data/c.jpg'' ''internal/c.jpg'' ''internal'')
   \<and> s3_backups_deleted (committed (db (fst (delete_candidate demo_rt ''bkt'' False
         (''/data/c.jpg'', ''internal/c.jpg'') (world_of ledger_bc, no_counts)))))
       = [audit_entry demo_rt ''bkt''
            (uploaded_row ''/data/c.jpg'' ''internal/c.jpg'' ''internal'')]
   \<and> path_exists (filesys outage_rt) ''/data''
   \<and> \<not> db_fails outage_rt ListUploaded ''/data''
   \<and> \<not> deletion_steps_ok outage_rt ''/data/c.jpg''
   \<and> db (fst (delete_candidate outage_rt ''bkt'' False (''/data/c.jpg'', ''internal/c.jpg'')
                  (world_of ledger_bc, no_counts)))
       = db (world_of ledger_bc)
   \<and> s3_backups (committed (db (fst (sync_deletions outage_rt ''bkt'' ''internal'' ''/data''
                                        False (world_of ledger_bc)))))
       = ledger_bc
   \<and> s3_backups_deleted (committed (db (fst (sync_deletions outage_rt ''bkt'' ''internal''
                                        ''/data'' False (world_of ledger_bc)))))
       = []"
proof -
  have h1: "clean (db (world_of ledger_bc))"
    by (simp add: clean_def world_of_def)
  have h2: "distinct (map c_file_path (s3_backups (committed (db (world_of ledger_bc)))))"
    by (simp add: world_of_def tables_of_def ledger_bc_def uploaded_row_def)
  have h3: "path_exists (filesys demo_rt) ''/data''"
    and h4: "\<not> db_fails demo_rt ListUploaded ''/data''"
    and g3: "path_exists (filesys outage_rt) ''/data''"
    and g4: "\<not> db_fails outage_rt ListUploaded ''/data''"
    and g5: "\<not> deletion_steps_ok outage_rt ''/data/c.jpg''"
    by (simp_all add: outage_rt_def demo_rt_def demo_fs_def deletion_steps_ok_def)
  have e1: "\<not> path_exists (filesys demo_rt) ''/data/c.jpg''"
    and e2: "deletion_steps_ok demo_rt ''/data/c.jpg''"
    by (simp_all add: demo_rt_def demo_fs_def deletion_steps_ok_def)
  have e3: "select_by_path ''/data/c.jpg'' (committed (db (world_of ledger_bc)))
       = Some (uploaded_row ''/data/c.jpg'' ''internal/c.jpg'' ''internal'')"
    by (simp add: select_by_path_def world_of_def tables_of_def ledger_bc_def uploaded_row_def)
  have r1: "removed_rows demo_rt ''internal'' ''/data'' (committed (db (world_of ledger_bc)))
              = [uploaded_row ''/data/c.jpg'' ''internal/c.jpg'' ''internal'']"
    by code_simp
  have r2: "removed_rows outage_rt ''internal'' ''/data'' (committed (db (world_of ledger_bc)))
              = []"
    by code_simp
  have l: "s3_backups (committed (db (world_of ledger_bc))) = ledger_bc"
    and a: "s3_backups_deleted (committed (db (world_of ledger_bc))) = []"
    by (simp_all add: world_of_def tables_of_def)
  have f: "filter (\<lambda>r. r \<notin> set [uploaded_row ''/data/c.jpg'' ''internal/c.jpg'' ''internal''])
             ledger_bc = [uploaded_row ''/data/b.jpg'' ''internal/b.jpg'' ''internal'']"
    by (simp add: ledger_bc_def uploaded_row_def)
  note ok = deletion_atomic_and_audited [OF h1 h2 h3 h4, of "''bkt''" "''internal''",
      unfolded r1 l a f]
  note ko = deletion_atomic_and_audited [OF h1 h2 g3 g4, of "''bkt''" "''internal''",
      unfolded r2 l a]
  have st: "s3_backups_deleted (committed (db (fst (delete_candidate demo_rt ''bkt'' False
         (''/data/c.jpg'', ''internal/c.jpg'') (world_of ledger_bc, no_counts)))))
       = [audit_entry demo_rt ''bkt''
            (uploaded_row ''/data/c.jpg'' ''internal/c.jpg'' ''internal'')]"
    using ok e1 e2 e3 a by (simp add: sql_delete_by_path_def sql_insert_deleted_def)
  show ?thesis
    using h1 h2 h3 h4 g3 g4 g5 r1 e1 e2 e3 st ok ko by simp
qed

section \<open>The upload pass, candidate by candidate\<close>

subsection \<open>The calls of one candidate\<close>

lemma upload_file_db:
  assumes "upload_file_to_s3 rt bucket p k st dry_run w = (r, w')"
  shows "db w' = db w"
  using assms
  by (auto simp: upload_file_to_s3_def calculate_md5_def Let_def split: option.splits if_splits)


lemma insert_into_database_cases:
  assumes "clean (db w)"
    and "insert_into_database rt p k st n md5 status w = (r, w')"
  shows "(r = None \<and> db w' = settled (sql_upsert
             \<lparr>c_file_path = p, c_s3_key = k, c_source_type = st, c_file_size = Some n,
               c_md5_checksum = md5, c_status = status,
               c_uploaded_at = Some (sql_now rt p)\<rparr> (committed (db w))))
         \<or> (r \<noteq> None \<and> db w' = db w)"
proof -
  have w: "working (db w) = committed (db w)"
    using assms(1) by (simp add: clean_def)
  have r1: "rollback (db w) = db w"
    using assms(1) by (rule rollback_clean)
  have r2: "\<And>stmt. rollback (execute stmt (db w)) = db w"
    using assms(1) by (cases "db w") (simp add: clean_def rollback_def execute_def)
  have c: "\<And>stmt. commit (execute stmt (db w)) = settled (stmt (committed (db w)))"
    using w by (cases "db w") (simp add: commit_def execute_def settled_def)
  show ?thesis
    using assms(2) r1 r2 c
    by (auto simp: insert_into_database_def Let_def split: if_splits)
qed

lemma mark_as_error_cases:
  assumes "clean (db w)"
  shows "db (fst (mark_as_error rt st spr dry_run p (w, c))) = db w
         \<or> (\<not> dry_run \<and> \<not> db_fails rt MarkError p \<and> \<not> db_fails rt CommitMarkError p
            \<and> db (fst (mark_as_error rt st spr dry_run p (w, c)))
                = settled (sql_mark_error p (get_s3_key (filesys rt) p st spr) st
                             (committed (db w))))"
proof -
  have w: "working (db w) = committed (db w)"
    using assms(1) by (simp add: clean_def)
  have r1: "rollback (db w) = db w"
    using assms(1) by (rule rollback_clean)
  have r2: "\<And>stmt. rollback (execute stmt (db w)) = db w"
    using assms(1) by (cases "db w") (simp add: clean_def rollback_def execute_def)
  have c: "\<And>stmt. commit (execute stmt (db w)) = settled (stmt (committed (db w)))"
    using w by (cases "db w") (simp add: commit_def execute_def settled_def)
  show ?thesis
    using r1 r2 c by (simp add: mark_as_error_def Let_def)
qed


subsection \<open>What one candidate does to the connection\<close>


lemma process_candidate_skips:
  assumes "\<not> db_fails rt SelectRecord p" and "archived (working (db w)) p"
  shows "process_candidate rt bucket st spr dry_run p (w, c)
           = (w, c\<lparr>skipped_count := skipped_count c + 1\<rparr>)"
  using assms by (simp add: process_candidate_def file_in_database_def archived_code)

lemma process_candidate_db_cases:
  assumes "clean (db w)"
  shows "db (fst (process_candidate rt bucket st spr dry_run p (w, c))) = db w
       \<or> (\<exists>new. c_file_path new = p \<and> c_status new = ''uploaded''
             \<and> db (fst (process_candidate rt bucket st spr dry_run p (w, c)))
                 = settled (sql_upsert new (committed (db w))))
       \<or> db (fst (process_candidate rt bucket st spr dry_run p (w, c)))
           = settled (sql_mark_error p (get_s3_key (filesys rt) p st spr) st (committed (db w)))"
proof -
  let ?k = "get_s3_key (filesys rt) p st spr"
  let ?goal = "\<lambda>s'. db (fst s') = db w
       \<or> (\<exists>new. c_file_path new = p \<and> c_status new = ''uploaded''
             \<and> db (fst s') = settled (sql_upsert new (committed (db w))))
       \<or> db (fst s') = settled (sql_mark_error p ?k st (committed (db w)))"
  have mark: "\<And>w1 c1. db w1 = db w \<Longrightarrow> ?goal (mark_as_error rt st spr dry_run p (w1, c1))"
  proof -
    fix w1 :: world and c1 :: counts
    assume e: "db w1 = db w"
    then have "clean (db w1)" using assms by simp
    from mark_as_error_cases [OF this, of rt st spr dry_run p c1]
    show "?goal (mark_as_error rt st spr dry_run p (w1, c1))"
      using e by auto
  qed
  show ?thesis
  proof (cases "file_in_database rt p w")
    case (Inl e)
    then show ?thesis using mark [of w c] by (simp add: process_candidate_def)
  next
    case (Inr db_record)
    show ?thesis
    proof (cases "case db_record of None \<Rightarrow> False | Some r \<Rightarrow> c_status r = ''uploaded''")
      case True
      then show ?thesis using Inr by (simp add: process_candidate_def)
    next
      case False
      obtain r w1 where up: "upload_file_to_s3 rt bucket p ?k st dry_run w = (r, w1)"
        by (cases "upload_file_to_s3 rt bucket p ?k st dry_run w")
      have dbw1: "db w1 = db w" using up by (rule upload_file_db)
      show ?thesis
      proof (cases r)
        case (Inl e)
        then show ?thesis
          using Inr False up mark [OF dbw1, of c] by (simp add: process_candidate_def)
      next
        case (Inr res)
        obtain n md5 where res: "res = (n, md5)" by (cases res)
        show ?thesis
        proof (cases dry_run)
          case True
          then show ?thesis
            using \<open>file_in_database rt p w = Inr db_record\<close> False up Inr res dbw1
            by (simp add: process_candidate_def)
        next
          case nd: False
          obtain r2 w2 where ins: "insert_into_database rt p ?k st n md5 ''uploaded'' w1 = (r2, w2)"
            by (cases "insert_into_database rt p ?k st n md5 ''uploaded'' w1")
          have c1: "clean (db w1)" using assms dbw1 by simp
          from insert_into_database_cases [OF c1 ins]
          show ?thesis
          proof
            assume a: "r2 = None \<and> db w2 = settled (sql_upsert
               \<lparr>c_file_path = p, c_s3_key = ?k, c_source_type = st, c_file_size = Some n,
                 c_md5_checksum = md5, c_status = ''uploaded'',
                 c_uploaded_at = Some (sql_now rt p)\<rparr> (committed (db w1)))"
            have "db (fst (process_candidate rt bucket st spr dry_run p (w, c))) = db w2"
              using \<open>file_in_database rt p w = Inr db_record\<close> False up Inr res nd ins a
              by (simp add: process_candidate_def)
            then have "db (fst (process_candidate rt bucket st spr dry_run p (w, c)))
                         = settled (sql_upsert
               \<lparr>c_file_path = p, c_s3_key = ?k, c_source_type = st, c_file_size = Some n,
                 c_md5_checksum = md5, c_status = ''uploaded'',
                 c_uploaded_at = Some (sql_now rt p)\<rparr> (committed (db w)))"
              using a dbw1 by simp
            then show ?thesis
              by (intro disjI2 disjI1 exI [of _ "\<lparr>c_file_path = p, c_s3_key = ?k,
                 c_source_type = st, c_file_size = Some n,
                 c_md5_checksum = md5, c_status = ''uploaded'',
                 c_uploaded_at = Some (sql_now rt p)\<rparr>"]) simp
          next
            assume a: "r2 \<noteq> None \<and> db w2 = db w1"
            then obtain e where e: "r2 = Some e" by auto
            have "process_candidate rt bucket st spr dry_run p (w, c)
                    = mark_as_error rt st spr dry_run p (w2, c)"
              using \<open>file_in_database rt p w = Inr db_record\<close> False up Inr res nd ins e
              by (simp add: process_candidate_def)
            then show ?thesis using mark [of w2 c] a dbw1 by simp
          qed
        qed
      qed
    qed
  qed
qed

lemma process_candidate_clean:
  assumes "clean (db (fst s))"
  shows "clean (db (fst (process_candidate rt bucket st spr dry_run p s)))"
proof -
  obtain w c where s: "s = (w, c)" by (cases s)
  have "clean (db w)" using assms s by simp
  from process_candidate_db_cases [OF this, of rt bucket st spr dry_run p c]
  show ?thesis using assms s by auto
qed


lemma upload_loop_clean:
  assumes "clean (db (fst s))"
  shows "clean (db (fst (upload_loop rt bucket st spr dry_run ps s)))"
  using assms by (induction ps arbitrary: s) (simp_all add: process_candidate_clean)

subsection \<open>A candidate whose upload throws, and terminal states\<close>

lemma error_row_status [simp]: "c_status (error_row p k st existing) = ''error''"
  by (simp add: error_row_def split: option.splits)










section \<open>Per-file isolation\<close>




section \<open>Idempotence of the upload pass\<close>

subsection \<open>A pass that succeeds, and a pass over archived files\<close>

lemma archived_upsert:
  "c_status new = ''uploaded'' \<Longrightarrow>
   archived (sql_upsert new t) q = (q = c_file_path new \<or> archived t q)"
proof (cases "q = c_file_path new")
  case True
  assume "c_status new = ''uploaded''"
  then show ?thesis
    using select_upsert_same [of new t] True by (auto simp: archived_def)
next
  case False
  then show ?thesis
    using select_upsert_other [of new q t] by (simp add: archived_def)
qed

lemma upload_loop_all_archived:
  assumes "\<forall>p \<in> set ps. \<not> db_fails rt SelectRecord p \<and> archived (working (db w)) p"
  shows "upload_loop rt bucket st spr dry_run ps (w, c)
           = (w, c\<lparr>skipped_count := skipped_count c + length ps\<rparr>)"
  using assms
proof (induction ps arbitrary: c)
  case Nil
  then show ?case by simp
next
  case (Cons p ps)
  have "process_candidate rt bucket st spr dry_run p (w, c)
          = (w, c\<lparr>skipped_count := skipped_count c + 1\<rparr>)"
    using Cons.prems by (intro process_candidate_skips) simp_all
  then show ?case
    using Cons.IH [of "c\<lparr>skipped_count := skipped_count c + 1\<rparr>"] Cons.prems by simp
qed

lemma upload_loop_success:
  assumes "run_succeeds rt ps" and "distinct ps"
  shows "calls (s3 (fst (upload_loop rt bucket st spr False ps (w, c))))
           = calls (s3 w)
               @ map (\<lambda>p. UploadFileobj (get_s3_key (filesys rt) p st spr) p)
                   (filter (\<lambda>p. \<not> archived (working (db w)) p) ps)
       \<and> (\<forall>q. archived (working (db (fst (upload_loop rt bucket st spr False ps (w, c))))) q
              = (q \<in> set ps \<or> archived (working (db w)) q))"
  using assms
proof (induction ps arbitrary: w c)
  case Nil
  then show ?case by simp
next
  case (Cons p ps)
  let ?k = "get_s3_key (filesys rt) p st spr"
  let ?s' = "process_candidate rt bucket st spr False p (w, c)"
  obtain w' c' where s': "?s' = (w', c')" by (cases ?s')
  have okp: "\<not> db_fails rt SelectRecord p" "\<not> upload_throws rt p"
    "\<not> db_fails rt Upsert p" "\<not> db_fails rt CommitUpsert p"
    and oks: "run_succeeds rt ps"
    using Cons.prems(1) by (simp_all add: run_succeeds_def)
  have dps: "distinct ps" and pn: "p \<notin> set ps"
    using Cons.prems(2) by simp_all
  note IH = Cons.IH [OF oks dps, of w' c']
  show ?case
  proof (cases "archived (working (db w)) p")
    case True
    have "?s' = (w, c\<lparr>skipped_count := skipped_count c + 1\<rparr>)"
      using okp(1) True by (rule process_candidate_skips)
    then have w': "w' = w" using s' by simp
    show ?thesis
      using IH True by (auto simp: s' w')
  next
    case False
    obtain n where n: "getsize (filesys rt) p = Some n"
      and o: "\<not> upload_open_fails rt p" and u: "s3_upload_error rt p = None"
      using okp(2) by (auto simp: upload_throws_def)
    let ?new = "\<lparr>c_file_path = p, c_s3_key = ?k, c_source_type = st, c_file_size = Some n,
                  c_md5_checksum = fst (calculate_md5 rt p w), c_status = ''uploaded'',
                  c_uploaded_at = Some (sql_now rt p)\<rparr>"
    have "db (fst ?s') = commit (execute (sql_upsert ?new) (db w))"
      using okp(1) False n o u okp(3,4) by (rule process_candidate_uploads(1))
    then have wk: "working (db w') = sql_upsert ?new (working (db w))"
      by (simp add: s')
    have "s3 (fst ?s') = upload_fileobj p ?k
               \<lparr>obj_body = file_bytes (filesys rt) p,
                 obj_tags = \<lparr>tag_source_type = st, tag_upload_date = datetime_now rt p,
                             tag_file_size = n, tag_original_path = p\<rparr>\<rparr> (s3 w)"
      using okp(1) False n o u okp(3,4) by (rule process_candidate_uploads(2))
    then have cl: "calls (s3 w') = calls (s3 w) @ [UploadFileobj ?k p]"
      by (simp add: s' upload_fileobj_def)
    have ar: "\<And>q. archived (working (db w')) q = (q = p \<or> archived (working (db w)) q)"
      unfolding wk by (simp add: archived_upsert)
    have flt: "filter (\<lambda>q. \<not> archived (working (db w')) q) ps
                 = filter (\<lambda>q. \<not> archived (working (db w)) q) ps"
      using pn by (intro filter_cong) (auto simp: ar)
    show ?thesis
      using IH [unfolded flt] False by (auto simp: s' cl ar)
  qed
qed

subsection \<open>Two passes in succession\<close>

text \<open>
  Claim C1, as stated, says that two passes in succession over an unchanged source tree
  upload each eligible file exactly once and that the second uploads nothing. A
  candidate whose upload fails is recorded with status \<^verbatim>\<open>error\<close>, which is not
  \<^verbatim>\<open>uploaded\<close>, so the next pass tries it again: with \<^verbatim>\<open>b.jpg\<close> archived and the
  S3 upload of \<^verbatim>\<open>a.jpg\<close> failing in the first pass only, the first pass uploads
  nothing and the second pass uploads \<^verbatim>\<open>a.jpg\<close>.
\<close>

theorem upload_idempotent_counterexample:
  "find_image_files (filesys flaky_rt) ''/data'' = find_image_files (filesys demo_rt) ''/data''
   \<and> calls (s3 (scan_and_upload flaky_rt ''bkt'' ''internal'' ''/data'' False
                   (world_of ledger_bc))) = []
   \<and> map c_status (s3_backups (committed (db (scan_and_upload flaky_rt ''bkt'' ''internal''
                                                  ''/data'' False (world_of ledger_bc)))))
       = [''uploaded'', ''uploaded'', ''error'']
   \<and> calls (s3 (scan_and_upload demo_rt ''bkt'' ''internal'' ''/data'' False
                   (scan_and_upload flaky_rt ''bkt'' ''internal'' ''/data'' False
                      (world_of ledger_bc))))
       = [UploadFileobj ''internal/a.jpg'' ''/data/a.jpg'']"
  by code_simp

text \<open>
  Claim C1, amended. A candidate whose lookup returns a row with status
  \<^verbatim>\<open>uploaded\<close> is skipped: nothing is uploaded, the ledger is not written, only the
  skip counter moves. Consequently, for two real passes in succession over the same
  source tree (the candidates being pairwise distinct paths): if in the first pass the
  lookup, the upload and the ledger write of every candidate go through, the first pass
  uploads exactly the candidates the ledger did not show as archived, each once, and
  the second pass, whatever its uploads would do, provided its lookups go through,
  uploads nothing, leaves the ledger as it is and reports 0 uploaded, all candidates
  skipped, 0 errors.
\<close>

theorem upload_idempotent:
  assumes "filesys rt2 = filesys rt1"
    and "distinct (find_image_files (filesys rt1) source_path)"
    and "run_succeeds rt1 (find_image_files (filesys rt1) source_path)"
    and "lookups_ok rt2 (find_image_files (filesys rt1) source_path)"
  shows "(\<forall>rt p r c dry_run spr.
            file_in_database rt p w = Inr (Some r) \<and> c_status r = ''uploaded'' \<longrightarrow>
            process_candidate rt bucket source_type spr dry_run p (w, c)
              = (w, c\<lparr>skipped_count := skipped_count c + 1\<rparr>))
       \<and> calls (s3 (scan_and_upload rt1 bucket source_type source_path False w))
           = calls (s3 w)
               @ map (\<lambda>p. UploadFileobj
                             (get_s3_key (filesys rt1) p source_type
                                (resolve (filesys rt1) source_path)) p)
                   (filter (\<lambda>p. \<not> archived (working (db w)) p)
                      (find_image_files (filesys rt1) source_path))
       \<and> s3 (scan_and_upload rt2 bucket source_type source_path False
                (scan_and_upload rt1 bucket source_type source_path False w))
           = s3 (scan_and_upload rt1 bucket source_type source_path False w)
       \<and> db (scan_and_upload rt2 bucket source_type source_path False
                (scan_and_upload rt1 bucket source_type source_path False w))
           = db (scan_and_upload rt1 bucket source_type source_path False w)
       \<and> (path_exists (filesys rt1) source_path \<longrightarrow>
            logged (scan_and_upload rt2 bucket source_type source_path False
                      (scan_and_upload rt1 bucket source_type source_path False w))
              = logged (scan_and_upload rt1 bucket source_type source_path False w)
                  @ [LogScanning source_type source_path,
                     LogCompleted source_type 0
                       (length (find_image_files (filesys rt1) source_path)) 0])"
proof -
  let ?ps = "find_image_files (filesys rt1) source_path"
  let ?spr = "resolve (filesys rt1) source_path"
  let ?run1 = "scan_and_upload rt1 bucket source_type source_path False w"
  let ?run2 = "scan_and_upload rt2 bucket source_type source_path False ?run1"
  have skip: "\<forall>rt p r c dry_run spr.
            file_in_database rt p w = Inr (Some r) \<and> c_status r = ''uploaded'' \<longrightarrow>
            process_candidate rt bucket source_type spr dry_run p (w, c)
              = (w, c\<lparr>skipped_count := skipped_count c + 1\<rparr>)"
    by (simp add: process_candidate_def)
  show ?thesis
  proof (cases "path_exists (filesys rt1) source_path")
    case False
    then have "?ps = []" by (simp add: find_image_files_def)
    then show ?thesis
      using skip False assms(1) by (simp add: scan_and_upload_def)
  next
    case True
    let ?s1 = "(logger (LogScanning source_type source_path) w, no_counts)"
    let ?l1 = "upload_loop rt1 bucket source_type ?spr False ?ps ?s1"
    have run1: "?run1 = logger (LogCompleted source_type (uploaded_count (snd ?l1))
                                  (skipped_count (snd ?l1)) (error_count (snd ?l1))) (fst ?l1)"
      using True by (simp add: scan_and_upload_def Let_def case_prod_beta)
    from upload_loop_success [OF assms(3,2), of bucket source_type ?spr
        "logger (LogScanning source_type source_path) w" no_counts]
    have calls1: "calls (s3 (fst ?l1))
           = calls (s3 w)
               @ map (\<lambda>p. UploadFileobj (get_s3_key (filesys rt1) p source_type ?spr) p)
                   (filter (\<lambda>p. \<not> archived (working (db w)) p) ?ps)"
      and arch1: "\<forall>q. archived (working (db (fst ?l1))) q
                     = (q \<in> set ?ps \<or> archived (working (db w)) q)"
      by simp_all
    let ?w2 = "logger (LogScanning source_type source_path) ?run1"
    have all: "\<forall>p \<in> set ?ps. \<not> db_fails rt2 SelectRecord p \<and> archived (working (db ?w2)) p"
      using assms(4) arch1 by (simp add: lookups_ok_def run1)
    have l2: "upload_loop rt2 bucket source_type ?spr False ?ps (?w2, no_counts)
                = (?w2, no_counts\<lparr>skipped_count := skipped_count no_counts + length ?ps\<rparr>)"
      using all by (rule upload_loop_all_archived)
    have run2: "?run2 = logger (LogCompleted source_type 0 (length ?ps) 0) ?w2"
      using True assms(1) l2
      by (simp add: scan_and_upload_def [of rt2] Let_def no_counts_def)
    have c: "calls (s3 ?run1)
           = calls (s3 w)
               @ map (\<lambda>p. UploadFileobj (get_s3_key (filesys rt1) p source_type ?spr) p)
                   (filter (\<lambda>p. \<not> archived (working (db w)) p) ?ps)"
      unfolding run1 using calls1 by simp
    have s: "s3 ?run2 = s3 ?run1" unfolding run2 by simp
    have d: "db ?run2 = db ?run1" unfolding run2 by simp
    have l: "logged ?run2 = logged ?run1
               @ [LogScanning source_type source_path,
                  LogCompleted source_type 0 (length ?ps) 0]"
      unfolding run2 by simp
    show ?thesis
      using skip c s d l by blast
  qed
qed

theorem upload_idempotent_witness:
  "filesys flaky_rt = filesys demo_rt
   \<and> distinct (find_image_files (filesys demo_rt) ''/data'')
   \<and> run_succeeds demo_rt (find_image_files (filesys demo_rt) ''/data'')
   \<and> lookups_ok flaky_rt (find_image_files (filesys demo_rt) ''/data'')
   \<and> path_exists (filesys demo_rt) ''/data''
   \<and> file_in_database demo_rt ''/data/b.jpg'' (world_of ledger_bc)
       = Inr (Some (uploaded_row ''/data/b.jpg'' ''internal/b.jpg'' ''internal''))
   \<and> c_status (uploaded_row ''/data/b.jpg'' ''internal/b.jpg'' ''internal'') = ''uploaded''
   \<and> process_candidate demo_rt ''bkt'' ''internal'' ''/data'' False ''/data/b.jpg''
         (world_of ledger_bc, no_counts)
       = (world_of ledger_bc, no_counts\<lparr>skipped_count := 1\<rparr>)
   \<and> calls (s3 (scan_and_upload demo_rt ''bkt'' ''internal'' ''/data'' False
                   (world_of ledger_bc)))
       = [UploadFileobj ''internal/a.jpg'' ''/data/a.jpg'']
   \<and> calls (s3 (scan_and_upload flaky_rt ''bkt'' ''internal'' ''/data'' False
                   (scan_and_upload demo_rt ''bkt'' ''internal'' ''/data'' False
                      (world_of ledger_bc))))
       = [UploadFileobj ''internal/a.jpg'' ''/data/a.jpg'']
   \<and> logged (scan_and_upload flaky_rt ''bkt'' ''internal'' ''/data'' False
                (scan_and_upload demo_rt ''bkt'' ''internal'' ''/data'' False
                   (world_of ledger_bc)))
       = logged (scan_and_upload demo_rt ''bkt'' ''internal'' ''/data'' False
                   (world_of ledger_bc))
           @ [LogScanning ''internal'' ''/data'', LogCompleted ''internal'' 0 2 0]"
proof -
  have cs: "find_image_files (filesys demo_rt) ''/data'' = [''/data/a.jpg'', ''/data/b.jpg'']"
    by code_simp
  have h2: "distinct (find_image_files (filesys demo_rt) ''/data'')"
    by (simp add: cs)
  have h3: "run_succeeds demo_rt (find_image_files (filesys demo_rt) ''/data'')"
    by (simp add: cs run_succeeds_def upload_throws_def demo_rt_def demo_fs_def)
  have h4: "lookups_ok flaky_rt (find_image_files (filesys demo_rt) ''/data'')"
    by (simp add: lookups_ok_def flaky_rt_def demo_rt_def)
  have h1: "filesys flaky_rt = filesys demo_rt"
    by (simp add: flaky_rt_def)
  have ex: "path_exists (filesys demo_rt) ''/data''"
    by (simp add: demo_rt_def demo_fs_def)
  have fb: "file_in_database demo_rt ''/data/b.jpg'' (world_of ledger_bc)
              = Inr (Some (uploaded_row ''/data/b.jpg'' ''internal/b.jpg'' ''internal''))"
    by (simp add: file_in_database_def demo_rt_def select_by_path_def world_of_def
          tables_of_def ledger_bc_def uploaded_row_def)
  have ub: "c_status (uploaded_row ''/data/b.jpg'' ''internal/b.jpg'' ''internal'') = ''uploaded''"
    by (simp add: uploaded_row_def)
  have c1: "calls (s3 (scan_and_upload demo_rt ''bkt'' ''internal'' ''/data'' False
                   (world_of ledger_bc)))
       = [UploadFileobj ''internal/a.jpg'' ''/data/a.jpg'']"
    by code_simp
  have z: "skipped_count no_counts = 0"
    by (simp add: no_counts_def)
  note th = upload_idempotent [OF h1 h2 h3 h4, of "world_of ledger_bc" "''bkt''" "''internal''"]
  have sk: "process_candidate demo_rt ''bkt'' ''internal'' ''/data'' False ''/data/b.jpg''
              (world_of ledger_bc, no_counts)
            = (world_of ledger_bc, no_counts\<lparr>skipped_count := skipped_count no_counts + 1\<rparr>)"
    using th fb ub by blast
  have s2: "s3 (scan_and_upload flaky_rt ''bkt'' ''internal'' ''/data'' False
                   (scan_and_upload demo_rt ''bkt'' ''internal'' ''/data'' False
                      (world_of ledger_bc)))
            = s3 (scan_and_upload demo_rt ''bkt'' ''internal'' ''/data'' False
                   (world_of ledger_bc))"
    using th by blast
  have lg: "logged (scan_and_upload flaky_rt ''bkt'' ''internal'' ''/data'' False
                (scan_and_upload demo_rt ''bkt'' ''internal'' ''/data'' False
                   (world_of ledger_bc)))
       = logged (scan_and_upload demo_rt ''bkt'' ''internal'' ''/data'' False
                   (world_of ledger_bc))
           @ [LogScanning ''internal'' ''/data'',
              LogCompleted ''internal'' 0
                (length (find_image_files (filesys demo_rt) ''/data'')) 0]"
    using th ex by blast
  show ?thesis
    using h1 h2 h3 h4 ex fb ub sk [unfolded z] c1 s2 lg [unfolded cs] by simp
qed

section \<open>What the upload pass keeps\<close>

text \<open>
  Several statements above suppose that nothing is pending on the connection and that
  \<^verbatim>\<open>file_path\<close> is unique in the live table. A connection just opened has nothing
  pending, the unique index is what \<^verbatim>\<open>ON CONFLICT (file_path)\<close> relies on, and
  the upload pass, which \<^verbatim>\<open>main\<close> runs before the deletion pass on the same
  connection, keeps both, in a dry run or not and whatever fails.
\<close>

lemma paths_upsert:
  "distinct (map c_file_path (s3_backups t))
     \<Longrightarrow> distinct (map c_file_path (s3_backups (sql_upsert new t)))"
proof -
  have m: "map c_file_path
             (map (\<lambda>r. if c_file_path r = c_file_path new
                       then r\<lparr>c_s3_key := c_s3_key new, c_file_size := c_file_size new,
                              c_md5_checksum := c_md5_checksum new, c_status := c_status new,
                              c_uploaded_at := c_uploaded_at new\<rparr>
                       else r) (s3_backups t))
           = map c_file_path (s3_backups t)"
    by (induction "s3_backups t" arbitrary: t) (auto simp: comp_def intro: map_cong)
  assume "distinct (map c_file_path (s3_backups t))"
  then show ?thesis
    using m by (auto simp: sql_upsert_def simp del: map_map)
qed

lemma paths_mark_error:
  "distinct (map c_file_path (s3_backups t))
     \<Longrightarrow> distinct (map c_file_path (s3_backups (sql_mark_error p k st t)))"
proof -
  have m: "map c_file_path
             (map (\<lambda>r. if c_file_path r = p then r\<lparr>c_status := ''error''\<rparr> else r)
                (s3_backups t))
           = map c_file_path (s3_backups t)"
    by (auto simp: comp_def intro: map_cong)
  assume "distinct (map c_file_path (s3_backups t))"
  then show ?thesis
    using m by (auto simp: sql_mark_error_def simp del: map_map)
qed

lemma process_candidate_paths:
  assumes "clean (db (fst s))"
    and "distinct (map c_file_path (s3_backups (committed (db (fst s)))))"
  shows "distinct (map c_file_path
           (s3_backups (committed (db (fst (process_candidate rt bucket st spr dry_run p s))))))"
proof -
  obtain w c where s: "s = (w, c)" by (cases s)
  have "clean (db w)" using assms(1) s by simp
  from process_candidate_db_cases [OF this, of rt bucket st spr dry_run p c]
  show ?thesis
    using assms(2) s by (auto simp: paths_upsert paths_mark_error)
qed

lemma upload_loop_paths:
  assumes "clean (db (fst s))"
    and "distinct (map c_file_path (s3_backups (committed (db (fst s)))))"
  shows "distinct (map c_file_path
           (s3_backups (committed (db (fst (upload_loop rt bucket st spr dry_run ps s))))))"
  using assms
  by (induction ps arbitrary: s) (simp_all add: process_candidate_clean process_candidate_paths)

lemma scan_and_upload_invariant:
  assumes "clean (db w)"
    and "distinct (map c_file_path (s3_backups (committed (db w))))"
  shows "clean (db (scan_and_upload rt bucket st sp dry_run w))"
    and "distinct (map c_file_path
           (s3_backups (committed (db (scan_and_upload rt bucket st sp dry_run w)))))"
proof -
  let ?s = "(logger (LogScanning st sp) w, no_counts)"
  have c: "clean (db (fst ?s))"
    and d: "distinct (map c_file_path (s3_backups (committed (db (fst ?s)))))"
    using assms by simp_all
  show "clean (db (scan_and_upload rt bucket st sp dry_run w))"
    using upload_loop_clean [OF c, of rt bucket st "resolve (filesys rt) sp" dry_run
        "find_image_files (filesys rt) sp"] assms(1)
    by (simp add: scan_and_upload_def Let_def case_prod_beta)
  show "distinct (map c_file_path
           (s3_backups (committed (db (scan_and_upload rt bucket st sp dry_run w)))))"
    using upload_loop_paths [OF c d, of rt bucket st "resolve (filesys rt) sp" dry_run
        "find_image_files (filesys rt) sp"] assms(2)
    by (simp add: scan_and_upload_def Let_def case_prod_beta)
qed

end
